theory Spec2Isabelle
  imports Main
begin

section \<open>Time\<close>

text \<open>
  The services keep every instant as an ISO 8601 string and read it back with
  \<^verbatim>\<open>new Date(s)\<close>. A \<^verbatim>\<open>Date\<close> holds either a time value, the number of
  milliseconds since the epoch, or \<^verbatim>\<open>NaN\<close> (an invalid date, the result of parsing a
  string that is no datetime). A datetime string is modelled by the \<^verbatim>\<open>Date\<close> it parses
  to; an optional string (\<^verbatim>\<open>ttlDateTime?: string\<close>) is a \<open>date option\<close>, where
  \<open>None\<close> stands for the values JavaScript treats as false: \<^verbatim>\<open>undefined\<close>,
  \<^verbatim>\<open>null\<close> and the empty string.

  The clock is an input: \<^verbatim>\<open>new Date()\<close> evaluates to the argument \<open>now\<close> of the
  function that reads it, and the clock does not advance inside one call.

  A \<^verbatim>\<open>number\<close> that the code uses as an index, a count or a delay is an \<open>int\<close>;
  fractions, \<^verbatim>\<open>NaN\<close> and the infinities are outside the model.
\<close>

datatype date = InvalidDate | Date int

definition HOUR_MS :: int where
  "HOUR_MS = 3600000"

definition DAY_MS :: int where
  "DAY_MS = 86400000"

text \<open>
  A time value lies within 8.64e15 milliseconds of the epoch. \<^verbatim>\<open>TimeClip\<close> of
  ECMAScript turns any other result of a computation into \<^verbatim>\<open>NaN\<close>.
\<close>

definition MAX_TIME :: int where
  "MAX_TIME = 8640000000000000"

definition validTime :: "int \<Rightarrow> bool" where
  "validTime t = (- MAX_TIME \<le> t \<and> t \<le> MAX_TIME)"

definition TimeClip :: "int \<Rightarrow> date" where
  "TimeClip t = (if validTime t then Date t else InvalidDate)"

text \<open>
  The local time zone is part of the environment. ECMAScript reads it twice:
  \<^verbatim>\<open>LocalTime(t)\<close> adds to a time value the offset of the zone at that instant, and
  \<^verbatim>\<open>UTC(t)\<close> subtracts from a local time the offset that the zone gives to that
  local time (the offset before the change, for a local time that a change of offset
  repeats or skips). Both offsets are inputs of the model.
\<close>

record timeZone =
  offsetAt :: "int \<Rightarrow> int"
  offsetOfLocal :: "int \<Rightarrow> int"

definition LocalTime :: "timeZone \<Rightarrow> int \<Rightarrow> int" where
  "LocalTime zone t = t + offsetAt zone t"

definition UTC :: "timeZone \<Rightarrow> int \<Rightarrow> int" where
  "UTC zone l = l - offsetOfLocal zone l"

text \<open>A zone whose offset never changes, as UTC (offset 0) or IST (offset 19800000).\<close>

definition fixedZone :: "int \<Rightarrow> timeZone" where
  "fixedZone off = \<lparr>offsetAt = (\<lambda>t. off), offsetOfLocal = (\<lambda>l. off)\<rparr>"

text \<open>
  A zone that is one hour ahead of UTC until 2025-10-26T01:00:00Z (time value
  1761440400000) and at UTC from then on, as Europe/London is in the autumn of 2025. The
  local hour from 01:00 to 02:00 of that day occurs twice, and \<^verbatim>\<open>UTC\<close> reads it
  with the earlier offset.
\<close>

definition autumnZone :: timeZone where
  "autumnZone =
     \<lparr>offsetAt = (\<lambda>t. if t < 1761440400000 then HOUR_MS else 0),
      offsetOfLocal = (\<lambda>l. if l < 1761440400000 + HOUR_MS then HOUR_MS else 0)\<rparr>"

text \<open>\<^verbatim>\<open>isNaN(d.getTime())\<close>\<close>

fun isNaN_getTime :: "date \<Rightarrow> bool" where
  "isNaN_getTime InvalidDate = True"
| "isNaN_getTime (Date t) = False"

text \<open>
  The relational operators on two dates compare their time values; a comparison with
  \<^verbatim>\<open>NaN\<close> is false. \<open>date_less a b\<close> is \<^verbatim>\<open>a < b\<close> (and \<^verbatim>\<open>b > a\<close>),
  \<open>date_le a b\<close> is \<^verbatim>\<open>a <= b\<close> (and \<^verbatim>\<open>b >= a\<close>).
\<close>

fun date_less :: "date \<Rightarrow> date \<Rightarrow> bool" where
  "date_less (Date a) (Date b) = (a < b)"
| "date_less _ _ = False"

fun date_le :: "date \<Rightarrow> date \<Rightarrow> bool" where
  "date_le (Date a) (Date b) = (a \<le> b)"
| "date_le _ _ = False"

text \<open>
  \<^verbatim>\<open>d.setHours(d.getHours() + h)\<close>: the hour field of the local time grows by
  \<open>h\<close>, so the local time grows by \<open>h\<close> hours, and the result is read back as a time
  value and clipped. Across a change of the offset the time value does not grow by
  \<open>h\<close> hours.
\<close>

fun addHours :: "timeZone \<Rightarrow> date \<Rightarrow> int \<Rightarrow> date" where
  "addHours zone (Date t) h = TimeClip (UTC zone (LocalTime zone t + h * HOUR_MS))"
| "addHours zone InvalidDate h = InvalidDate"

text \<open>
  \<^verbatim>\<open>d.setDate(d.getDate() + n)\<close>: the day of the local date grows by \<open>n\<close>, the
  local time of day stays, so the local time grows by \<open>n\<close> calendar days.
\<close>

fun addDays :: "timeZone \<Rightarrow> date \<Rightarrow> int \<Rightarrow> date" where
  "addDays zone (Date t) n = TimeClip (UTC zone (LocalTime zone t + n * DAY_MS))"
| "addDays zone InvalidDate n = InvalidDate"

text \<open>
  \<^verbatim>\<open>d.toISOString()\<close> throws a \<^verbatim>\<open>RangeError\<close> on an invalid date; on a valid one
  it gives the string that parses back to the same time value. Reading a property of
  \<^verbatim>\<open>undefined\<close> throws a \<^verbatim>\<open>TypeError\<close>.
\<close>

datatype js_error = RangeError | TypeError

fun toISOString :: "date \<Rightarrow> js_error + date" where
  "toISOString (Date t) = Inr (Date t)"
| "toISOString InvalidDate = Inl RangeError"

section \<open>Retry policies (types/campaign)\<close>

record RetryPolicy =
  errorCode :: string
  description :: string
  retryIntervals :: "int list"
  requiresTemplateActive :: "bool option"

text \<open>
  \<^verbatim>\<open>DEFAULT_RETRY_POLICIES\<close> is an object literal with three keys, and
  \<^verbatim>\<open>DEFAULT_RETRY_POLICIES[errorCode]\<close> reads a property of it. For a name that is
  no key of the literal the read goes to \<^verbatim>\<open>Object.prototype\<close>: it gives
  \<^verbatim>\<open>undefined\<close>, unless the name is one of the members of \<^verbatim>\<open>Object.prototype\<close>,
  where it gives that member, a function or an object, which counts as true and has no
  \<^verbatim>\<open>retryIntervals\<close>. The members are those of ECMAScript, Annex B included.
\<close>

definition objectPrototypeMembers :: "string list" where
  "objectPrototypeMembers =
     [''constructor'', ''hasOwnProperty'', ''isPrototypeOf'', ''propertyIsEnumerable'',
      ''toLocaleString'', ''toString'', ''valueOf'', ''__proto__'', ''__defineGetter__'',
      ''__defineSetter__'', ''__lookupGetter__'', ''__lookupSetter__'']"

datatype tableEntry = NoEntry | InheritedMember | OwnPolicy RetryPolicy

definition DEFAULT_RETRY_POLICIES :: "string \<Rightarrow> tableEntry" where
  "DEFAULT_RETRY_POLICIES code =
     (if code = ''131049'' then
        OwnPolicy \<lparr>errorCode = ''131049'',
                   description = ''Frequency cap / healthy ecosystem'',
                   retryIntervals = [12, 24, 48],
                   requiresTemplateActive = None\<rparr>
      else if code = ''130472'' then
        OwnPolicy \<lparr>errorCode = ''130472'',
                   description = ''Experiment group'',
                   retryIntervals = [24, 24, 24],
                   requiresTemplateActive = None\<rparr>
      else if code = ''132015'' then
        OwnPolicy \<lparr>errorCode = ''132015'',
                   description = ''Template paused'',
                   retryIntervals = [24],
                   requiresTemplateActive = Some True\<rparr>
      else if code \<in> set objectPrototypeMembers then InheritedMember
      else NoEntry)"

section \<open>RetryService\<close>

text \<open>\<^verbatim>\<open>isRetryTtlExpired(ttlDateTime)\<close>: \<^verbatim>\<open>now > ttl\<close>.\<close>

definition isRetryTtlExpired :: "int \<Rightarrow> date \<Rightarrow> bool" where
  "isRetryTtlExpired now ttlDateTime = date_less ttlDateTime (Date now)"

record retryDecision =
  decision_nextAttemptAt :: "date option"
  shouldRetry :: bool

definition noRetry :: retryDecision where
  "noRetry = \<lparr>decision_nextAttemptAt = None, shouldRetry = False\<rparr>"

text \<open>
  \<^verbatim>\<open>calculateNextRetryAttempt(errorCode, currentAttempt, lastAttemptAt, ttlDateTime)\<close>.
  An inherited member passes the test \<^verbatim>\<open>!policy\<close>, and the read of
  \<^verbatim>\<open>policy.retryIntervals.length\<close> throws. For a negative \<open>currentAttempt\<close> the
  element \<^verbatim>\<open>retryIntervals[currentAttempt]\<close> is \<^verbatim>\<open>undefined\<close>, the sum of the
  hours is \<^verbatim>\<open>NaN\<close> and \<^verbatim>\<open>setHours\<close> makes the date invalid.
\<close>

definition calculateNextRetryAttempt ::
  "timeZone \<Rightarrow> int \<Rightarrow> string \<Rightarrow> int \<Rightarrow> date \<Rightarrow> date \<Rightarrow> js_error + retryDecision" where
  "calculateNextRetryAttempt zone now code currentAttempt lastAttemptAt ttlDateTime =
     (if isRetryTtlExpired now ttlDateTime then Inr noRetry
      else case DEFAULT_RETRY_POLICIES code of
        NoEntry \<Rightarrow> Inr noRetry
      | InheritedMember \<Rightarrow> Inl TypeError
      | OwnPolicy policy \<Rightarrow>
          if currentAttempt \<ge> int (length (retryIntervals policy)) then Inr noRetry
          else
            let nextAttempt =
                  (if 0 \<le> currentAttempt
                   then addHours zone lastAttemptAt (retryIntervals policy ! nat currentAttempt)
                   else InvalidDate)
            in if date_less ttlDateTime nextAttempt then Inr noRetry
               else (case toISOString nextAttempt of
                       Inl e \<Rightarrow> Inl e
                     | Inr str \<Rightarrow>
                         Inr \<lparr>decision_nextAttemptAt = Some str, shouldRetry = True\<rparr>))"

text \<open>The intervals of an error code's policy; none when it has no policy.\<close>

definition intervalsOf :: "string \<Rightarrow> int list" where
  "intervalsOf code =
     (case DEFAULT_RETRY_POLICIES code of OwnPolicy policy \<Rightarrow> retryIntervals policy | _ \<Rightarrow> [])"

record validation =
  isValid :: bool
  errors :: "string list"

text \<open>
  \<^verbatim>\<open>validateUnifiedTtl(ttlDateTime, scheduledDateTime)\<close>. The error list grows by
  \<^verbatim>\<open>errors.push\<close>; the function returns early when a date is invalid.
\<close>

definition validateUnifiedTtl :: "timeZone \<Rightarrow> int \<Rightarrow> date \<Rightarrow> date \<Rightarrow> validation" where
  "validateUnifiedTtl zone now ttl scheduled =
     (let errors0 = (if isNaN_getTime ttl then [''Invalid TTL datetime''] else []);
          errors1 = (if isNaN_getTime scheduled
                     then errors0 @ [''Invalid scheduled datetime''] else errors0)
      in if length errors1 > 0 then \<lparr>isValid = False, errors = errors1\<rparr>
         else
           let minTtl = addDays zone scheduled 1;
               errors2 = (if date_less ttl minTtl
                          then errors1 @ [''TTL must be at least 24 hours after scheduled time'']
                          else errors1);
               maxTtl = addDays zone scheduled 28;
               errors3 = (if date_less maxTtl ttl
                          then errors2 @ [''TTL cannot be more than 28 days after scheduled time'']
                          else errors2);
               errors4 = (if date_le ttl (Date now)
                          then errors3 @ [''TTL must be in the future''] else errors3)
           in \<lparr>isValid = (length errors4 = 0), errors = errors4\<rparr>)"

text \<open>\<^verbatim>\<open>getRetryPolicy(errorCode)\<close>: the entry, or \<^verbatim>\<open>null\<close> for no entry.\<close>

definition getRetryPolicy :: "string \<Rightarrow> tableEntry" where
  "getRetryPolicy code = DEFAULT_RETRY_POLICIES code"

text \<open>
  \<^verbatim>\<open>isTemplateActive(templateId)\<close> logs the identifier and returns true, a placeholder
  for the template service.
\<close>

definition isTemplateActive :: "string \<Rightarrow> bool" where
  "isTemplateActive templateId = True"

datatype attemptStatus = pending | completed | failed | skipped

record RetryAttempt =
  attemptNumber :: nat
  scheduledAt :: date
  attempt_errorCode :: "string option"
  status :: attemptStatus
  executedAt :: "date option"

record RetryTtlConfig =
  enabled :: bool
  ttlDateTime :: "date option"
  scheduledDateTime :: "date option"
  stopOnConversion :: bool
  stopOnManualPause :: bool
  stopOnTemplateChange :: bool

record CampaignRetryState =
  campaignId :: string
  retryConfig :: RetryTtlConfig
  attempts :: "RetryAttempt list"
  lastAttemptAt :: "date option"
  nextAttemptAt :: "date option"
  isExpired :: bool

text \<open>
  The reason of a decision, one constructor for each message of processRetryAttempt:
  \<^item> \<open>RetryDisabled\<close>: \<^verbatim>\<open>Retry is disabled for this campaign\<close>
  \<^item> \<open>TtlExpired\<close>: \<^verbatim>\<open>Retry TTL has expired\<close>
  \<^item> \<open>NoPolicy code\<close>: \<^verbatim>\<open>No retry policy found for error code ${errorCode}\<close>
  \<^item> \<open>TemplatePaused\<close>: \<^verbatim>\<open>Template is still paused, retry blocked\<close>
  \<^item> \<open>RetryScheduled at\<close>: \<^verbatim>\<open>Retry scheduled for ${nextAttemptAt}\<close>
  \<^item> \<open>NoMoreAttempts\<close>: \<^verbatim>\<open>No more retry attempts available or TTL expired\<close>
\<close>

datatype reason =
  RetryDisabled | TtlExpired | NoPolicy string | TemplatePaused
  | RetryScheduled "date option" | NoMoreAttempts

record retryOutcome = retryDecision +
  reason :: reason

definition refuse :: "reason \<Rightarrow> retryOutcome" where
  "refuse r = \<lparr>decision_nextAttemptAt = None, shouldRetry = False, reason = r\<rparr>"

text \<open>
  \<^verbatim>\<open>policy.requiresTemplateActive\<close> as a condition: true for a policy that sets it,
  \<^verbatim>\<open>undefined\<close> (false) for a policy without it and for an inherited member.
\<close>

definition requiresTemplate :: "tableEntry \<Rightarrow> bool" where
  "requiresTemplate entry =
     (case entry of OwnPolicy policy \<Rightarrow> requiresTemplateActive policy = Some True | _ \<Rightarrow> False)"

text \<open>
  \<^verbatim>\<open>processRetryAttempt(campaignId, errorCode, retryState)\<close>. The function is
  \<^verbatim>\<open>async\<close>: an exception of its body rejects the promise it returns, which the
  model gives as \<open>Inl\<close>.
\<close>

definition processRetryAttempt ::
  "timeZone \<Rightarrow> int \<Rightarrow> string \<Rightarrow> string \<Rightarrow> CampaignRetryState
     \<Rightarrow> js_error + retryOutcome" where
  "processRetryAttempt zone now cid code retryState =
     (if \<not> enabled (retryConfig retryState) then Inr (refuse RetryDisabled)
      else case ttlDateTime (retryConfig retryState) of
        None \<Rightarrow> Inr (refuse TtlExpired)
      | Some ttl \<Rightarrow>
          if isRetryTtlExpired now ttl then Inr (refuse TtlExpired)
          else if getRetryPolicy code = NoEntry then Inr (refuse (NoPolicy code))
          else if code = ''132015'' \<and> requiresTemplate (getRetryPolicy code)
                  \<and> \<not> isTemplateActive cid
          then Inr (refuse TemplatePaused)
          else
            let currentAttempt = int (length (attempts retryState));
                lastAttempt = (case lastAttemptAt retryState of
                                 Some l \<Rightarrow> l | None \<Rightarrow> Date now)
            in (case calculateNextRetryAttempt zone now code currentAttempt lastAttempt ttl of
                  Inl e \<Rightarrow> Inl e
                | Inr d \<Rightarrow>
                    Inr \<lparr>decision_nextAttemptAt = decision_nextAttemptAt d,
                         shouldRetry = shouldRetry d,
                         reason = (if shouldRetry d
                                   then RetryScheduled (decision_nextAttemptAt d)
                                   else NoMoreAttempts)\<rparr>))"

text \<open>The reason a call answers with, when it answers.\<close>

definition reasonOf :: "js_error + retryOutcome \<Rightarrow> reason option" where
  "reasonOf r = (case r of Inl e \<Rightarrow> None | Inr out \<Rightarrow> Some (reason out))"

text \<open>\<^verbatim>\<open>updateRetryState(retryState, attempt)\<close>: a copy of the state with three fields replaced.\<close>

definition updateRetryState ::
  "int \<Rightarrow> CampaignRetryState \<Rightarrow> RetryAttempt \<Rightarrow> CampaignRetryState" where
  "updateRetryState now retryState attempt =
     retryState
       \<lparr>attempts := attempts retryState @ [attempt],
        lastAttemptAt := Some (case executedAt attempt of Some e \<Rightarrow> e | None \<Rightarrow> Date now),
        isExpired := (case ttlDateTime (retryConfig retryState) of
                        Some ttl \<Rightarrow> isRetryTtlExpired now ttl
                      | None \<Rightarrow> False)\<rparr>"

section \<open>CampaignService: the retry state store\<close>

text \<open>
  \<^verbatim>\<open>campaignRetryStates\<close> is a \<^verbatim>\<open>Map\<close> from campaign identifier to retry state. A
  \<^verbatim>\<open>Map\<close> iterates in insertion order, so the store is the list of its entries.
  \<^verbatim>\<open>get\<close> reads the entry of a key; \<^verbatim>\<open>set\<close> replaces the value of a key that is
  present, where it stands, and appends an entry for a new key. The functions of the
  service that change the map, or an object held by it, return the new store.
\<close>

type_synonym store = "(string \<times> CampaignRetryState) list"

definition states_get :: "store \<Rightarrow> string \<Rightarrow> CampaignRetryState option" where
  "states_get st cid = map_of st cid"

fun states_set :: "store \<Rightarrow> string \<Rightarrow> CampaignRetryState \<Rightarrow> store" where
  "states_set [] cid v = [(cid, v)]"
| "states_set ((k, w) # rest) cid v =
     (if k = cid then (cid, v) # rest else (k, w) # states_set rest cid v)"

text \<open>\<^verbatim>\<open>createRetryState(campaignId, retryConfig)\<close> of RetryService\<close>

definition createRetryState :: "int \<Rightarrow> string \<Rightarrow> RetryTtlConfig \<Rightarrow> CampaignRetryState" where
  "createRetryState now cid config =
     \<lparr>campaignId = cid, retryConfig = config, attempts = [],
      lastAttemptAt = None, nextAttemptAt = None,
      isExpired = (case ttlDateTime config of
                     Some ttl \<Rightarrow> isRetryTtlExpired now ttl | None \<Rightarrow> False)\<rparr>"

text \<open>\<^verbatim>\<open>setRetryConfig(campaignId, retryConfig)\<close>, the one function that adds an entry\<close>

definition setRetryConfig :: "int \<Rightarrow> store \<Rightarrow> string \<Rightarrow> RetryTtlConfig \<Rightarrow> store" where
  "setRetryConfig now st cid config =
     (case states_get st cid of
        Some existingState \<Rightarrow>
          states_set st cid
            (existingState
               \<lparr>retryConfig := config,
                isExpired := (case ttlDateTime config of
                                Some ttl \<Rightarrow> isRetryTtlExpired now ttl | None \<Rightarrow> False)\<rparr>)
      | None \<Rightarrow> states_set st cid (createRetryState now cid config))"

text \<open>\<^verbatim>\<open>getRetryState(campaignId)\<close>\<close>

definition getRetryState :: "store \<Rightarrow> string \<Rightarrow> CampaignRetryState option" where
  "getRetryState st cid = states_get st cid"

text \<open>
  The callback that getCampaignsForRetry gives to \<^verbatim>\<open>forEach\<close>, on one entry: the
  state as the callback leaves it (it may set \<^verbatim>\<open>isExpired\<close> on the object the map
  holds), and whether the entry is pushed on \<^verbatim>\<open>campaignsForRetry\<close>.
\<close>

definition retryCallback :: "int \<Rightarrow> CampaignRetryState \<Rightarrow> CampaignRetryState \<times> bool" where
  "retryCallback now retryState =
     (if \<not> enabled (retryConfig retryState) \<or> isExpired retryState then (retryState, False)
      else if (case ttlDateTime (retryConfig retryState) of
                 None \<Rightarrow> False | Some ttl \<Rightarrow> isRetryTtlExpired now ttl)
      then (retryState\<lparr>isExpired := True\<rparr>, False)
      else case nextAttemptAt retryState of
        None \<Rightarrow> (retryState, False)
      | Some nextAttempt \<Rightarrow> (retryState, date_le nextAttempt (Date now)))"

text \<open>
  \<^verbatim>\<open>campaignRetryStates.forEach\<close>: the entries in order, with the list collected so
  far; it gives the final list and the store after the scan.
\<close>

fun forEachEntry ::
  "int \<Rightarrow> store \<Rightarrow> (string \<times> CampaignRetryState) list
     \<Rightarrow> (string \<times> CampaignRetryState) list \<times> store" where
  "forEachEntry now [] campaignsForRetry = (campaignsForRetry, [])"
| "forEachEntry now ((cid, retryState) # rest) campaignsForRetry =
     (let (retryState', push) = retryCallback now retryState;
          (result, rest') =
            forEachEntry now rest
              (if push then campaignsForRetry @ [(cid, retryState')] else campaignsForRetry)
      in (result, (cid, retryState') # rest'))"

text \<open>\<^verbatim>\<open>getCampaignsForRetry()\<close>: the campaigns due, and the store after the scan.\<close>

definition getCampaignsForRetry ::
  "int \<Rightarrow> store \<Rightarrow> (string \<times> CampaignRetryState) list \<times> store" where
  "getCampaignsForRetry now st = forEachEntry now st []"

text \<open>\<^verbatim>\<open>updateRetryAttempt(campaignId, attempt)\<close>\<close>

definition updateRetryAttempt :: "int \<Rightarrow> store \<Rightarrow> string \<Rightarrow> RetryAttempt \<Rightarrow> store" where
  "updateRetryAttempt now st cid attempt =
     (case states_get st cid of
        None \<Rightarrow> st
      | Some retryState \<Rightarrow> states_set st cid (updateRetryState now retryState attempt))"

text \<open>
  Two conditions on an entry: its deadline is set and has passed, and its next attempt
  is set and has come. An entry is eligible when it meets the four conditions under
  which the scan returns it.
\<close>

definition ttlPassed :: "int \<Rightarrow> CampaignRetryState \<Rightarrow> bool" where
  "ttlPassed now s =
     (case ttlDateTime (retryConfig s) of None \<Rightarrow> False | Some ttl \<Rightarrow> isRetryTtlExpired now ttl)"

definition nextAttemptDue :: "int \<Rightarrow> CampaignRetryState \<Rightarrow> bool" where
  "nextAttemptDue now s =
     (case nextAttemptAt s of None \<Rightarrow> False | Some nextAttempt \<Rightarrow> date_le nextAttempt (Date now))"

definition eligible :: "int \<Rightarrow> CampaignRetryState \<Rightarrow> bool" where
  "eligible now s =
     (enabled (retryConfig s) \<and> \<not> isExpired s \<and> \<not> ttlPassed now s \<and> nextAttemptDue now s)"

text \<open>The entries the scan marks: enabled, not yet marked expired, with a deadline that has passed.\<close>

definition newlyExpired :: "int \<Rightarrow> CampaignRetryState \<Rightarrow> bool" where
  "newlyExpired now s = (enabled (retryConfig s) \<and> \<not> isExpired s \<and> ttlPassed now s)"

section \<open>RetryEngine\<close>


text \<open>The configuration is taken as it is given: the constructor checks none of its numbers.\<close>

record RetryEngineConfig =
  maxConcurrentRetries :: int
  retryCheckIntervalMs :: int
  enableLogging :: bool

text \<open>
  What \<^verbatim>\<open>simulateCampaignExecution\<close> resolves to. It draws the outcome with
  \<^verbatim>\<open>Math.random()\<close>, so the outcome is an input of the model. An error code that
  is absent is \<open>None\<close>.
\<close>

record execution =
  exec_success :: bool
  exec_errorCode :: "string option"

text \<open>\<^verbatim>\<open>RetryExecutionResult\<close>, without the text of its message.\<close>

record RetryExecutionResult =
  result_campaignId :: string
  success :: bool
  result_errorCode :: "string option"
  nextRetryAt :: "date option"

text \<open>
  The update of the next attempt time in executeCampaignRetry:
  \<^verbatim>\<open>getRetryState(campaignId)\<close> gives the object the map holds now, and the
  assignment to its \<^verbatim>\<open>nextAttemptAt\<close> changes it there.
\<close>

definition setNextAttemptAt :: "store \<Rightarrow> string \<Rightarrow> date \<Rightarrow> store" where
  "setNextAttemptAt st cid next =
     (case getRetryState st cid of
        None \<Rightarrow> st
      | Some updatedState \<Rightarrow> states_set st cid (updatedState\<lparr>nextAttemptAt := Some next\<rparr>))"

text \<open>The \<^verbatim>\<open>attempt\<close> that executeCampaignRetry records.\<close>

definition attemptOf :: "int \<Rightarrow> execution \<Rightarrow> CampaignRetryState \<Rightarrow> RetryAttempt" where
  "attemptOf now executionResult retryState =
     \<lparr>attemptNumber = length (attempts retryState) + 1,
      scheduledAt = Date now,
      attempt_errorCode = exec_errorCode executionResult,
      status = (if exec_success executionResult then completed else failed),
      executedAt = Some (Date now)\<rparr>"

text \<open>
  \<^verbatim>\<open>executeCampaignRetry(campaignId, retryState)\<close>, after the simulated execution
  has resolved to \<open>executionResult\<close> at time \<open>now\<close>. \<open>retryState\<close> is the
  object the scan returned: updateRetryAttempt puts a copy in the map, and
  processRetryAttempt still reads the object of the scan. The \<^verbatim>\<open>catch\<close> block turns
  an exception into a result.
\<close>

definition executeCampaignRetry ::
  "timeZone \<Rightarrow> int \<Rightarrow> execution \<Rightarrow> store \<Rightarrow> string \<Rightarrow> CampaignRetryState
     \<Rightarrow> RetryExecutionResult \<times> store" where
  "executeCampaignRetry zone now executionResult st cid retryState =
     (let attempt = attemptOf now executionResult retryState;
          st1 = updateRetryAttempt now st cid attempt
      in if exec_success executionResult
         then (\<lparr>result_campaignId = cid, success = True, result_errorCode = None,
                 nextRetryAt = None\<rparr>, st1)
         else
           (case exec_errorCode executionResult of
              None \<Rightarrow>
                (\<lparr>result_campaignId = cid, success = False, result_errorCode = None,
                  nextRetryAt = None\<rparr>, st1)
            | Some code \<Rightarrow>
                (case processRetryAttempt zone now cid code retryState of
                   Inl e \<Rightarrow>
                     (\<lparr>result_campaignId = cid, success = False, result_errorCode = None,
                       nextRetryAt = None\<rparr>, st1)
                 | Inr retryDecision \<Rightarrow>
                     (case (if shouldRetry retryDecision
                            then decision_nextAttemptAt retryDecision else None) of
                        Some next \<Rightarrow>
                          (\<lparr>result_campaignId = cid, success = False,
                            result_errorCode = Some code, nextRetryAt = Some next\<rparr>,
                           setNextAttemptAt st1 cid next)
                      | None \<Rightarrow>
                          (\<lparr>result_campaignId = cid, success = False,
                            result_errorCode = Some code, nextRetryAt = None\<rparr>, st1)))))"

text \<open>
  The retries of a batch. Every promise of the batch waits for its own simulated
  execution and then works on the entry of its own campaign; the model runs them in the
  order of the batch. \<open>sim cid\<close> is the outcome drawn for a campaign and \<open>at cid\<close>
  the time at which its execution resolves. The list of results is the
  \<^verbatim>\<open>results\<close> that \<^verbatim>\<open>Promise.allSettled\<close> gives.
\<close>

fun runBatch ::
  "timeZone \<Rightarrow> (string \<Rightarrow> int) \<Rightarrow> (string \<Rightarrow> execution)
     \<Rightarrow> (string \<times> CampaignRetryState) list \<Rightarrow> store
     \<Rightarrow> RetryExecutionResult list \<times> store" where
  "runBatch zone at sim [] st = ([], st)"
| "runBatch zone at sim ((cid, retryState) # rest) st =
     (let (r, st1) = executeCampaignRetry zone (at cid) (sim cid) st cid retryState;
          (rs, st2) = runBatch zone at sim rest st1
      in (r # rs, st2))"

text \<open>
  \<^verbatim>\<open>array.slice(0, end)\<close>: a negative \<open>end\<close> counts from the end of the array.
\<close>

definition slice0 :: "'a list \<Rightarrow> int \<Rightarrow> 'a list" where
  "slice0 xs end =
     (let len = int (length xs);
          final = (if end < 0 then max (len + end) 0 else min end len)
      in take (nat final) xs)"

text \<open>The \<^verbatim>\<open>batch\<close> of processRetries, with \<^verbatim>\<open>Math.min\<close> for the batch size.\<close>

definition batchOf ::
  "RetryEngineConfig \<Rightarrow> (string \<times> CampaignRetryState) list
     \<Rightarrow> (string \<times> CampaignRetryState) list" where
  "batchOf config campaignsForRetry =
     (let batchSize = min (int (length campaignsForRetry)) (maxConcurrentRetries config)
      in slice0 campaignsForRetry batchSize)"

text \<open>
  \<^verbatim>\<open>processRetries()\<close>, one tick that runs from its scan to its end with no other
  writer of the store in between: the results of the retries it dispatched, in the order
  of the batch, and the store after the tick.
\<close>

definition processRetries ::
  "timeZone \<Rightarrow> RetryEngineConfig \<Rightarrow> int \<Rightarrow> (string \<Rightarrow> int) \<Rightarrow> (string \<Rightarrow> execution)
     \<Rightarrow> store \<Rightarrow> RetryExecutionResult list \<times> store" where
  "processRetries zone config now at sim st =
     (let (campaignsForRetry, st1) = getCampaignsForRetry now st
      in if length campaignsForRetry = 0 then ([], st1)
         else runBatch zone at sim (batchOf config campaignsForRetry) st1)"

subsection \<open>The timer and the event loop\<close>

text \<open>
  The fields of the engine. \<^verbatim>\<open>retryInterval\<close> holds the timer that
  \<^verbatim>\<open>setInterval\<close> returns; the model keeps the time at which that timer fires next.
\<close>

record RetryEngine =
  config :: RetryEngineConfig
  isRunning :: bool
  retryInterval :: "int option"

definition newRetryEngine :: "RetryEngineConfig \<Rightarrow> RetryEngine" where
  "newRetryEngine c = \<lparr>config = c, isRunning = False, retryInterval = None\<rparr>"

text \<open>
  The delay of a timer: the timers of Node take a delay below 1 or above 2147483647 as
  1 millisecond.
\<close>

definition timerDelay :: "int \<Rightarrow> int" where
  "timerDelay ms = (if 1 \<le> ms \<and> ms \<le> 2147483647 then ms else 1)"

text \<open>\<^verbatim>\<open>start()\<close>, called at time \<open>now\<close>\<close>

definition start :: "int \<Rightarrow> RetryEngine \<Rightarrow> RetryEngine" where
  "start now e =
     (if isRunning e then e
      else e\<lparr>isRunning := True,
             retryInterval := Some (now + timerDelay (retryCheckIntervalMs (config e)))\<rparr>)"

text \<open>\<^verbatim>\<open>stop()\<close>\<close>

definition stop :: "RetryEngine \<Rightarrow> RetryEngine" where
  "stop e = (if \<not> isRunning e then e else e\<lparr>isRunning := False, retryInterval := None\<rparr>)"

text \<open>
  The state of the program between two turns of the event loop: the clock, the engine,
  the map of retry states, and the calls of processRetries that are in progress. A call
  that has dispatched a batch is suspended at \<^verbatim>\<open>await Promise.allSettled\<close> until the
  timeouts of 100 milliseconds that simulateCampaignExecution has set for its batch
  fire; \<open>ticksWaiting\<close> lists these calls in the order in which they started, each with
  the time at which its timeouts fire and its batch. The states of a batch are the
  objects the map held at the scan. While a call waits, the one write to such an object
  is \<^verbatim>\<open>isExpired = true\<close> by a later scan, and a retry reads \<^verbatim>\<open>retryConfig\<close>,
  \<^verbatim>\<open>attempts\<close> and \<^verbatim>\<open>lastAttemptAt\<close> of its state only, so the batch is kept
  by value.
\<close>

record runtime =
  clock :: int
  engine :: RetryEngine
  states :: store
  ticksWaiting :: "(int \<times> (string \<times> CampaignRetryState) list) list"

definition SIMULATED_DELAY_MS :: int where
  "SIMULATED_DELAY_MS = 100"

text \<open>
  The callback of \<^verbatim>\<open>setInterval\<close>, run at time \<open>now\<close>: it calls
  \<^verbatim>\<open>this.processRetries()\<close>, which runs up to its \<^verbatim>\<open>await\<close>. With nothing due,
  or with an empty batch, the call ends in this turn. Otherwise every retry of the batch
  has set its timeout and the call waits. The callback reads no field that tells whether
  an earlier call is still waiting.
\<close>

definition intervalCallback :: "int \<Rightarrow> runtime \<Rightarrow> runtime" where
  "intervalCallback now r =
     (let (campaignsForRetry, st1) = getCampaignsForRetry now (states r)
      in if length campaignsForRetry = 0 then r\<lparr>clock := now, states := st1\<rparr>
         else
           let batch = batchOf (config (engine r)) campaignsForRetry
           in if batch = [] then r\<lparr>clock := now, states := st1\<rparr>
              else r\<lparr>clock := now, states := st1,
                     ticksWaiting := ticksWaiting r @ [(now + SIMULATED_DELAY_MS, batch)]\<rparr>)"

text \<open>
  The timeouts of a waiting call fire at time \<open>now\<close>: the retries of its batch go on
  with the outcomes \<open>sim now\<close> drawn for them, and the call ends.
\<close>

definition batchResumes ::
  "timeZone \<Rightarrow> (int \<Rightarrow> string \<Rightarrow> execution) \<Rightarrow> int
     \<Rightarrow> (string \<times> CampaignRetryState) list \<Rightarrow> runtime \<Rightarrow> runtime" where
  "batchResumes zone sim now batch r =
     r\<lparr>clock := now,
       states := snd (runBatch zone (\<lambda>cid. now) (sim now) batch (states r))\<rparr>"

text \<open>
  What happens next. The event loop runs the timer that is due first. \<open>IntervalFires\<close>
  is the timer of the engine, which can run when it is set and no timeout is due
  before it; it is then set again one delay later. \<open>TimeoutsFire\<close> is the batch of
  timeouts of the call that has waited longest, which can run when the timer of the
  engine is not due before it. \<open>Start\<close> and \<open>Stop\<close> are calls of the methods at the
  current time. A step that cannot run gives \<open>None\<close>.
\<close>

datatype event = Start | Stop | IntervalFires | TimeoutsFire

fun step ::
  "timeZone \<Rightarrow> (int \<Rightarrow> string \<Rightarrow> execution) \<Rightarrow> runtime \<Rightarrow> event \<Rightarrow> runtime option" where
  "step zone sim r Start = Some (r\<lparr>engine := start (clock r) (engine r)\<rparr>)"
| "step zone sim r Stop = Some (r\<lparr>engine := stop (engine r)\<rparr>)"
| "step zone sim r IntervalFires =
     (case retryInterval (engine r) of
        None \<Rightarrow> None
      | Some fireAt \<Rightarrow>
          if list_all (\<lambda>(wakeAt, batch). fireAt \<le> wakeAt) (ticksWaiting r)
          then Some (intervalCallback fireAt
                 (r\<lparr>engine := (engine r)
                        \<lparr>retryInterval :=
                           Some (fireAt + timerDelay (retryCheckIntervalMs (config (engine r))))\<rparr>\<rparr>))
          else None)"
| "step zone sim r TimeoutsFire =
     (case ticksWaiting r of
        [] \<Rightarrow> None
      | (wakeAt, batch) # rest \<Rightarrow>
          if (case retryInterval (engine r) of None \<Rightarrow> True | Some fireAt \<Rightarrow> wakeAt \<le> fireAt)
          then Some (batchResumes zone sim wakeAt batch (r\<lparr>ticksWaiting := rest\<rparr>))
          else None)"

fun run ::
  "timeZone \<Rightarrow> (int \<Rightarrow> string \<Rightarrow> execution) \<Rightarrow> runtime \<Rightarrow> event list \<Rightarrow> runtime option" where
  "run zone sim r [] = Some r"
| "run zone sim r (ev # evs) =
     (case step zone sim r ev of None \<Rightarrow> None | Some r' \<Rightarrow> run zone sim r' evs)"

text \<open>The program at time \<open>now\<close> with a new engine and a given map of retry states.\<close>

definition initially :: "RetryEngineConfig \<Rightarrow> int \<Rightarrow> store \<Rightarrow> runtime" where
  "initially c now st =
     \<lparr>clock = now, engine = newRetryEngine c, states = st, ticksWaiting = []\<rparr>"

section \<open>Conditions and example data of the properties\<close>

text \<open>The deadline of a state is missing, or it has passed.\<close>

definition ttlMissingOrPassed :: "int \<Rightarrow> CampaignRetryState \<Rightarrow> bool" where
  "ttlMissingOrPassed now s =
     (case ttlDateTime (retryConfig s) of None \<Rightarrow> True | Some ttl \<Rightarrow> isRetryTtlExpired now ttl)"

text \<open>A retry configuration, and a retry state with no attempts yet, not marked expired.\<close>

definition configWith :: "bool \<Rightarrow> date option \<Rightarrow> RetryTtlConfig" where
  "configWith en ttl =
     \<lparr>enabled = en, ttlDateTime = ttl, scheduledDateTime = None,
      stopOnConversion = True, stopOnManualPause = True, stopOnTemplateChange = True\<rparr>"

definition stateWith ::
  "string \<Rightarrow> bool \<Rightarrow> date option \<Rightarrow> date option \<Rightarrow> date option \<Rightarrow> CampaignRetryState" where
  "stateWith cid en ttl lastAt nextAt =
     \<lparr>campaignId = cid,
      retryConfig = \<lparr>enabled = en, ttlDateTime = ttl, scheduledDateTime = None,
                     stopOnConversion = True, stopOnManualPause = True,
                     stopOnTemplateChange = True\<rparr>,
      attempts = [], lastAttemptAt = lastAt, nextAttemptAt = nextAt, isExpired = False\<rparr>"

text \<open>A campaign whose next attempt was due at time 500, with its deadline at time 1000000000.\<close>

definition dueState :: "string \<Rightarrow> CampaignRetryState" where
  "dueState cid = stateWith cid True (Some (Date 1000000000)) None (Some (Date 500))"

definition fiveDue :: store where
  "fiveDue = [(''c1'', dueState ''c1''), (''c2'', dueState ''c2''), (''c3'', dueState ''c3''),
              (''c4'', dueState ''c4''), (''c5'', dueState ''c5'')]"

definition engineConfig :: "int \<Rightarrow> int \<Rightarrow> RetryEngineConfig" where
  "engineConfig maxRetries intervalMs =
     \<lparr>maxConcurrentRetries = maxRetries, retryCheckIntervalMs = intervalMs,
      enableLogging = True\<rparr>"

text \<open>
  An engine that checks every 50 milliseconds, 50 milliseconds after a tick that has
  dispatched campaign c1 and is waiting for it.
\<close>

definition oneTickWaiting :: runtime where
  "oneTickWaiting =
     \<lparr>clock = 1050,
      engine = \<lparr>config = engineConfig 10 50, isRunning = True, retryInterval = Some 1100\<rparr>,
      states = [(''c1'', dueState ''c1'')],
      ticksWaiting = [(1150, [(''c1'', dueState ''c1'')])]\<rparr>"

definition frequencyCapped :: "string \<Rightarrow> execution" where
  "frequencyCapped cid = \<lparr>exec_success = False, exec_errorCode = Some ''131049''\<rparr>"

text \<open>One campaign due, one disabled with a deadline that has passed, one enabled with such a deadline.\<close>

definition mixedStore :: store where
  "mixedStore = [(''c1'', dueState ''c1''),
                 (''c2'', stateWith ''c2'' False (Some (Date 100)) None (Some (Date 50))),
                 (''c3'', stateWith ''c3'' True (Some (Date 100)) None (Some (Date 50)))]"

definition firstAttempt :: RetryAttempt where
  "firstAttempt = \<lparr>attemptNumber = 1, scheduledAt = Date 900, attempt_errorCode = Some ''131049'',
                    status = failed, executedAt = Some (Date 950)\<rparr>"

section \<open>Time in a zone\<close>

declare addHours.simps [simp del] addDays.simps [simp del]

lemma addHours_fixedZone:
  "validTime (t + h * HOUR_MS) \<Longrightarrow> addHours (fixedZone off) (Date t) h = Date (t + h * HOUR_MS)"
  by (simp add: addHours.simps fixedZone_def LocalTime_def UTC_def TimeClip_def)

lemma addDays_fixedZone:
  "validTime (t + n * DAY_MS) \<Longrightarrow> addDays (fixedZone off) (Date t) n = Date (t + n * DAY_MS)"
  by (simp add: addDays.simps fixedZone_def LocalTime_def UTC_def TimeClip_def)

text \<open>
  Where the offset changes, an hour or a day of local time is not an hour or a day of
  time. In the autumn zone, twelve hours later on the clock than 2025-10-25T18:00:00Z is
  thirteen hours later, and one day later on the calendar than 2025-10-25T12:00:00Z is
  twenty-five hours later.
\<close>

lemma addHours_autumnZone:
  "addHours autumnZone (Date 1761415200000) 12 = Date (1761415200000 + 13 * HOUR_MS)"
  by (simp add: addHours.simps autumnZone_def LocalTime_def UTC_def TimeClip_def validTime_def
      MAX_TIME_def HOUR_MS_def)

lemma addDays_autumnZone:
  "addDays autumnZone (Date 1761393600000) 1 = Date (1761393600000 + 25 * HOUR_MS)"
  by (simp add: addDays.simps autumnZone_def LocalTime_def UTC_def TimeClip_def validTime_def
      MAX_TIME_def HOUR_MS_def DAY_MS_def)

text \<open>Past the largest time value there is no date.\<close>

lemma addHours_out_of_range:
  "addHours (fixedZone off) (Date MAX_TIME) 12 = InvalidDate"
  by (simp add: addHours.simps fixedZone_def LocalTime_def UTC_def TimeClip_def validTime_def
      MAX_TIME_def HOUR_MS_def)

section \<open>The next retry attempt\<close>

lemma intervalsOf_known:
  "intervalsOf ''131049'' = [12, 24, 48]"
  "intervalsOf ''130472'' = [24, 24, 24]"
  "intervalsOf ''132015'' = [24]"
  by (simp_all add: intervalsOf_def DEFAULT_RETRY_POLICIES_def)

lemma expired_iff: "isRetryTtlExpired now (Date d) \<longleftrightarrow> d < now"
  by (simp add: isRetryTtlExpired_def)

lemma not_inherited:
  "code \<notin> set objectPrototypeMembers \<Longrightarrow> DEFAULT_RETRY_POLICIES code \<noteq> InheritedMember"
  by (simp add: DEFAULT_RETRY_POLICIES_def)

lemma no_entry_intervals: "DEFAULT_RETRY_POLICIES code = NoEntry \<Longrightarrow> intervalsOf code = []"
  by (simp add: intervalsOf_def)

text \<open>
  The answer on a last attempt at a time \<open>l\<close>, in any zone, when the candidate that
  \<^verbatim>\<open>setHours\<close> computes is a date \<open>c\<close> and the error code is no inherited name.
\<close>

lemma calculate_on_time:
  assumes "code \<notin> set objectPrototypeMembers"
    and "k < length (intervalsOf code) \<Longrightarrow> addHours zone (Date l) (intervalsOf code ! k) = Date c"
  shows "calculateNextRetryAttempt zone now code (int k) (Date l) ttl =
     Inr (if isRetryTtlExpired now ttl \<or> DEFAULT_RETRY_POLICIES code = NoEntry
             \<or> k \<ge> length (intervalsOf code) \<or> date_less ttl (Date c)
          then \<lparr>decision_nextAttemptAt = None, shouldRetry = False\<rparr>
          else \<lparr>decision_nextAttemptAt = Some (Date c), shouldRetry = True\<rparr>)"
proof (cases "DEFAULT_RETRY_POLICIES code")
  case NoEntry
  then show ?thesis
    by (simp add: calculateNextRetryAttempt_def noRetry_def)
next
  case InheritedMember
  then show ?thesis
    using not_inherited [OF assms(1)] by simp
next
  case (OwnPolicy policy)
  then have iv: "intervalsOf code = retryIntervals policy"
    by (simp add: intervalsOf_def)
  show ?thesis
  proof (cases "k < length (retryIntervals policy)")
    case True
    then show ?thesis
      using assms(2) OwnPolicy
      by (simp add: calculateNextRetryAttempt_def noRetry_def iv Let_def)
  next
    case False
    then show ?thesis
      using OwnPolicy by (simp add: calculateNextRetryAttempt_def noRetry_def iv)
  qed
qed

text \<open>
  Where the function throws: on a last attempt that is no datetime, on a candidate past
  the largest time value, on a negative attempt index, and on an error code that names a
  member of \<^verbatim>\<open>Object.prototype\<close>.
\<close>

lemma calculate_invalid_last:
  "\<not> isRetryTtlExpired now ttl \<Longrightarrow> 0 \<le> k \<Longrightarrow> k < int (length (intervalsOf code)) \<Longrightarrow>
   calculateNextRetryAttempt zone now code k InvalidDate ttl = Inl RangeError"
  by (cases "DEFAULT_RETRY_POLICIES code")
    (auto simp: calculateNextRetryAttempt_def intervalsOf_def Let_def addHours.simps)

lemma calculate_out_of_range:
  "calculateNextRetryAttempt (fixedZone 0) 0 ''131049'' 0 (Date MAX_TIME) (Date MAX_TIME)
     = Inl RangeError"
  by (simp add: calculateNextRetryAttempt_def isRetryTtlExpired_def DEFAULT_RETRY_POLICIES_def
      Let_def addHours_out_of_range) (simp add: MAX_TIME_def)

lemma calculate_negative_index:
  "calculateNextRetryAttempt (fixedZone 0) 0 ''131049'' (- 1) (Date 0) (Date 1000)
     = Inl RangeError"
  by (simp add: calculateNextRetryAttempt_def isRetryTtlExpired_def DEFAULT_RETRY_POLICIES_def
      Let_def)

lemma calculate_inherited_name:
  "calculateNextRetryAttempt (fixedZone 0) 0 ''toString'' 0 (Date 0) (Date 1000) = Inl TypeError"
  by (simp add: calculateNextRetryAttempt_def isRetryTtlExpired_def DEFAULT_RETRY_POLICIES_def
      objectPrototypeMembers_def)

lemma calculate_returns:
  assumes "code \<notin> set objectPrototypeMembers"
    and "\<forall>h \<in> set (intervalsOf code). addHours zone (Date l) h \<noteq> InvalidDate"
  shows "calculateNextRetryAttempt zone now code (int k) (Date l) ttl \<noteq> Inl e"
proof (cases "k < length (intervalsOf code)")
  case True
  then have "addHours zone (Date l) (intervalsOf code ! k) \<noteq> InvalidDate"
    using assms(2) by simp
  then obtain c where "addHours zone (Date l) (intervalsOf code ! k) = Date c"
    by (cases "addHours zone (Date l) (intervalsOf code ! k)") auto
  then show ?thesis
    using calculate_on_time [OF assms(1), of k zone l c now ttl] by simp
next
  case False
  then show ?thesis
    using calculate_on_time [OF assms(1), of k zone l 0 now ttl] by simp
qed

text \<open>
  The claim C1 as the specification states it holds for every \<^verbatim>\<open>lastAttemptAt\<close>:
  the function answers shouldRetry = false in four cases and otherwise shouldRetry =
  true with the candidate time. For a \<^verbatim>\<open>lastAttemptAt\<close> that is no datetime none of
  the four cases applies when the deadline is ahead and an interval is left, and the
  function throws instead of answering.
\<close>

theorem calculateNextRetryAttempt_throws:
  "calculateNextRetryAttempt (fixedZone 0) 0 ''131049'' 0 InvalidDate (Date 1000)
     = Inl RangeError"
  by (simp add: calculateNextRetryAttempt_def isRetryTtlExpired_def DEFAULT_RETRY_POLICIES_def
      Let_def addHours.simps)

text \<open>
  C1, amended. Take an error code that is no name of a member of
  \<^verbatim>\<open>Object.prototype\<close>, an attempt index \<open>k\<close> that is a natural number, a
  deadline, and a last attempt at a time \<open>l\<close> (a parsable \<^verbatim>\<open>lastAttemptAt\<close>), and
  let the candidate \<open>c\<close> be the date that \<^verbatim>\<open>setHours\<close> computes from \<open>l\<close> and the
  interval of index \<open>k\<close>: that many hours later on the local clock, within the range
  of time values. Then calculateNextRetryAttempt answers shouldRetry = false with
  nextAttemptAt = null when the deadline has passed (\<open>now > deadline\<close>), when the error
  code has no policy, when the attempt index is not below the number of intervals of the
  policy, or when \<open>c\<close> is strictly after the deadline; otherwise it answers shouldRetry
  = true with nextAttemptAt = \<open>c\<close>, so a candidate equal to the deadline is retryable.
  In a zone with a fixed offset from UTC the candidate is \<open>l\<close> plus the hours of the
  interval, as long as that is a time value; for error code 131049 and attempt index 0
  it is \<open>l\<close> plus 12 hours.
\<close>

theorem calculateNextRetryAttempt_cases:
  "(code \<notin> set objectPrototypeMembers
      \<and> (k < length (intervalsOf code) \<longrightarrow>
           addHours zone (Date l) (intervalsOf code ! k) = Date c) \<longrightarrow>
      calculateNextRetryAttempt zone now code (int k) (Date l) ttl =
        Inr (if isRetryTtlExpired now ttl \<or> DEFAULT_RETRY_POLICIES code = NoEntry
                \<or> k \<ge> length (intervalsOf code) \<or> date_less ttl (Date c)
             then \<lparr>decision_nextAttemptAt = None, shouldRetry = False\<rparr>
             else \<lparr>decision_nextAttemptAt = Some (Date c), shouldRetry = True\<rparr>))
   \<and> (isRetryTtlExpired now (Date d) \<longleftrightarrow> now > d)
   \<and> (date_less (Date d) (Date c) \<longleftrightarrow> c > d)
   \<and> (validTime (l + h * HOUR_MS) \<longrightarrow>
        addHours (fixedZone off) (Date l) h = Date (l + h * HOUR_MS))
   \<and> (now \<le> d \<and> validTime (l + 12 * HOUR_MS) \<and> l + 12 * HOUR_MS \<le> d \<longrightarrow>
        calculateNextRetryAttempt (fixedZone off) now ''131049'' 0 (Date l) (Date d) =
          Inr \<lparr>decision_nextAttemptAt = Some (Date (l + 12 * HOUR_MS)), shouldRetry = True\<rparr>)"
proof -
  have particular:
    "calculateNextRetryAttempt (fixedZone off) now ''131049'' 0 (Date l) (Date d) =
       Inr \<lparr>decision_nextAttemptAt = Some (Date (l + 12 * HOUR_MS)), shouldRetry = True\<rparr>"
    if "now \<le> d" and v: "validTime (l + 12 * HOUR_MS)" and "l + 12 * HOUR_MS \<le> d"
  proof -
    have "''131049'' \<notin> set objectPrototypeMembers"
      by (simp add: objectPrototypeMembers_def)
    moreover have "addHours (fixedZone off) (Date l) (intervalsOf ''131049'' ! 0)
        = Date (l + 12 * HOUR_MS)"
      using v by (simp add: intervalsOf_known addHours_fixedZone)
    ultimately show ?thesis
      using calculate_on_time
          [of "''131049''" 0 "fixedZone off" l "l + 12 * HOUR_MS" now "Date d"] that
      by (simp add: intervalsOf_known expired_iff) (simp add: DEFAULT_RETRY_POLICIES_def)
  qed
  show ?thesis
    using calculate_on_time [of code k zone l c now ttl] particular
    by (simp add: expired_iff addHours_fixedZone)
qed

theorem calculateNextRetryAttempt_cases_witness:
  "calculateNextRetryAttempt (fixedZone 0) 0 ''131049'' 0 (Date 1000)
       (Date (1000 + 100 * HOUR_MS)) =
     Inr \<lparr>decision_nextAttemptAt = Some (Date (1000 + 12 * HOUR_MS)), shouldRetry = True\<rparr>
   \<and> calculateNextRetryAttempt (fixedZone 0) 0 ''131049'' 3 (Date 1000)
       (Date (1000 + 100 * HOUR_MS)) =
     Inr \<lparr>decision_nextAttemptAt = None, shouldRetry = False\<rparr>
   \<and> calculateNextRetryAttempt (fixedZone 0) 0 ''130472'' 2 (Date 1000)
       (Date (1000 + 24 * HOUR_MS)) =
     Inr \<lparr>decision_nextAttemptAt = Some (Date (1000 + 24 * HOUR_MS)), shouldRetry = True\<rparr>
   \<and> calculateNextRetryAttempt (fixedZone 0) 0 ''130472'' 2 (Date 1000)
       (Date (999 + 24 * HOUR_MS)) =
     Inr \<lparr>decision_nextAttemptAt = None, shouldRetry = False\<rparr>
   \<and> calculateNextRetryAttempt autumnZone 0 ''131049'' 0 (Date 1761415200000)
       (Date (1761415200000 + 100 * HOUR_MS)) =
     Inr \<lparr>decision_nextAttemptAt = Some (Date (1761415200000 + 13 * HOUR_MS)),
          shouldRetry = True\<rparr>"
proof -
  have codes: "''131049'' \<notin> set objectPrototypeMembers" "''130472'' \<notin> set objectPrototypeMembers"
    by (simp_all add: objectPrototypeMembers_def)
  have v: "validTime (1000 + 12 * HOUR_MS)" "validTime (1000 + 24 * HOUR_MS)"
    by (simp_all add: validTime_def MAX_TIME_def HOUR_MS_def)
  have entries: "DEFAULT_RETRY_POLICIES ''131049'' \<noteq> NoEntry"
    "DEFAULT_RETRY_POLICIES ''130472'' \<noteq> NoEntry"
    by (simp_all add: DEFAULT_RETRY_POLICIES_def)
  have pos: "(0::int) \<le> 1000 + 100 * HOUR_MS" "(0::int) \<le> 1000 + 24 * HOUR_MS"
    "(0::int) \<le> 999 + 24 * HOUR_MS" "(0::int) \<le> 1761415200000 + 100 * HOUR_MS"
    "(0::int) \<le> HOUR_MS"
    by (simp_all add: HOUR_MS_def)
  have a: "calculateNextRetryAttempt (fixedZone 0) 0 ''131049'' 0 (Date 1000)
       (Date (1000 + 100 * HOUR_MS)) =
     Inr \<lparr>decision_nextAttemptAt = Some (Date (1000 + 12 * HOUR_MS)), shouldRetry = True\<rparr>"
    using calculateNextRetryAttempt_cases
        [of "''131049''" 0 "fixedZone 0" 1000 "1000 + 12 * HOUR_MS" 0
          "Date (1000 + 100 * HOUR_MS)"]
      codes v entries pos
    by (simp add: intervalsOf_known addHours_fixedZone expired_iff)
  have b: "calculateNextRetryAttempt (fixedZone 0) 0 ''131049'' 3 (Date 1000)
       (Date (1000 + 100 * HOUR_MS)) =
     Inr \<lparr>decision_nextAttemptAt = None, shouldRetry = False\<rparr>"
    using calculateNextRetryAttempt_cases
        [of "''131049''" 3 "fixedZone 0" 1000 0 0 "Date (1000 + 100 * HOUR_MS)"]
      codes
    by (simp add: intervalsOf_known)
  have c: "calculateNextRetryAttempt (fixedZone 0) 0 ''130472'' 2 (Date 1000)
       (Date (1000 + 24 * HOUR_MS)) =
     Inr \<lparr>decision_nextAttemptAt = Some (Date (1000 + 24 * HOUR_MS)), shouldRetry = True\<rparr>"
    using calculateNextRetryAttempt_cases
        [of "''130472''" 2 "fixedZone 0" 1000 "1000 + 24 * HOUR_MS" 0
          "Date (1000 + 24 * HOUR_MS)"]
      codes v entries pos
    by (simp add: intervalsOf_known addHours_fixedZone expired_iff)
  have d: "calculateNextRetryAttempt (fixedZone 0) 0 ''130472'' 2 (Date 1000)
       (Date (999 + 24 * HOUR_MS)) =
     Inr \<lparr>decision_nextAttemptAt = None, shouldRetry = False\<rparr>"
    using calculateNextRetryAttempt_cases
        [of "''130472''" 2 "fixedZone 0" 1000 "1000 + 24 * HOUR_MS" 0
          "Date (999 + 24 * HOUR_MS)"]
      codes v entries pos
    by (simp add: intervalsOf_known addHours_fixedZone expired_iff)
  have e: "calculateNextRetryAttempt autumnZone 0 ''131049'' 0 (Date 1761415200000)
       (Date (1761415200000 + 100 * HOUR_MS)) =
     Inr \<lparr>decision_nextAttemptAt = Some (Date (1761415200000 + 13 * HOUR_MS)),
          shouldRetry = True\<rparr>"
    using calculateNextRetryAttempt_cases
        [of "''131049''" 0 autumnZone 1761415200000 "1761415200000 + 13 * HOUR_MS" 0
          "Date (1761415200000 + 100 * HOUR_MS)"]
      codes entries pos
    by (simp add: intervalsOf_known addHours_autumnZone expired_iff)
  show ?thesis
    using a b c d e by simp
qed

section \<open>The two validators\<close>

lemma validTime_between:
  "validTime s \<Longrightarrow> validTime (s + 28 * DAY_MS) \<Longrightarrow> 0 \<le> n \<Longrightarrow> n \<le> 28 \<Longrightarrow>
   validTime (s + n * DAY_MS)"
proof -
  assume s: "validTime s" and e: "validTime (s + 28 * DAY_MS)" and n: "0 \<le> n" "n \<le> 28"
  have "0 \<le> n * DAY_MS" "n * DAY_MS \<le> 28 * DAY_MS"
    using n by (simp_all add: DAY_MS_def)
  then show ?thesis
    using s e by (simp add: validTime_def)
qed

text \<open>
  validateUnifiedTtl in any zone, when the two bounds that \<^verbatim>\<open>setDate\<close> computes are
  dates: the scheduled time one calendar day later and 28 calendar days later.
\<close>

lemma validateUnifiedTtl_bounds:
  assumes "addDays zone (Date s) 1 = Date lo" and "addDays zone (Date s) 28 = Date hi"
  shows "validateUnifiedTtl zone now (Date t) (Date s) =
     \<lparr>isValid = (lo \<le> t \<and> t \<le> hi \<and> now < t),
      errors = (if t < lo then [''TTL must be at least 24 hours after scheduled time''] else [])
             @ (if hi < t then [''TTL cannot be more than 28 days after scheduled time''] else [])
             @ (if t \<le> now then [''TTL must be in the future''] else [])\<rparr>"
  using assms by (auto simp: validateUnifiedTtl_def Let_def)


text \<open>
  Close to the largest time value a bound is no date, no comparison with it holds, and
  a gap of half a second passes.
\<close>

lemma validateUnifiedTtl_out_of_range:
  "validateUnifiedTtl (fixedZone 0) 0 (Date (MAX_TIME - 500)) (Date (MAX_TIME - 1000))
     = \<lparr>isValid = True, errors = []\<rparr>"
  by (simp add: validateUnifiedTtl_def Let_def addDays.simps fixedZone_def LocalTime_def UTC_def
      TimeClip_def validTime_def MAX_TIME_def DAY_MS_def)

text \<open>
  The claim C3 as the specification states it gives the lower bound as 24 hours. The
  validator moves the scheduled time by one day of the local calendar. In the autumn
  zone the day after 2025-10-25T12:00:00Z has 25 hours, and a deadline exactly 24 hours
  after that scheduled time, in the future, is refused where the claim has it accepted.
\<close>

theorem validateUnifiedTtl_calendar_day:
  "validateUnifiedTtl autumnZone 1761000000000 (Date (1761393600000 + DAY_MS))
       (Date 1761393600000)
     = \<lparr>isValid = False,
        errors = [''TTL must be at least 24 hours after scheduled time'']\<rparr>"
  by (simp add: validateUnifiedTtl_def Let_def addDays.simps autumnZone_def LocalTime_def
      UTC_def TimeClip_def validTime_def MAX_TIME_def DAY_MS_def HOUR_MS_def)

text \<open>
  C3, amended. Let \<open>lo\<close> and \<open>hi\<close> be the scheduled time \<open>s\<close> moved by one day
  and by 28 days of the local calendar, both within the range of time values. For every
  parsable deadline \<open>t\<close> with \<open>lo \<le> t \<le> hi\<close> and \<open>t\<close> strictly after \<open>now\<close>,
  validateUnifiedTtl answers isValid = true with an empty error list; when \<open>t\<close> is
  before \<open>lo\<close>, after \<open>hi\<close> or not after \<open>now\<close>, it answers isValid = false with
  at least one error. In a zone with a fixed offset from UTC, and with \<open>s\<close> plus 28
  days a time value, \<open>lo\<close> and \<open>hi\<close> are \<open>s\<close> plus 24 hours and \<open>s\<close> plus 28
  days: the gap \<open>t - s\<close> is accepted from 24 hours to 28 days. The validator answers on
  every input, a date that does not parse included, and isValid is true exactly when the
  error list is empty.
\<close>

theorem validateUnifiedTtl_window:
  "(addDays zone (Date s) 1 = Date lo \<and> addDays zone (Date s) 28 = Date hi \<longrightarrow>
      (lo \<le> t \<and> t \<le> hi \<and> now < t \<longrightarrow>
         validateUnifiedTtl zone now (Date t) (Date s) = \<lparr>isValid = True, errors = []\<rparr>)
      \<and> (t < lo \<or> hi < t \<or> t \<le> now \<longrightarrow>
           \<not> isValid (validateUnifiedTtl zone now (Date t) (Date s))
           \<and> errors (validateUnifiedTtl zone now (Date t) (Date s)) \<noteq> []))
   \<and> (validTime s \<and> validTime (s + 28 * DAY_MS) \<longrightarrow>
        (DAY_MS \<le> t - s \<and> t - s \<le> 28 * DAY_MS \<and> now < t \<longrightarrow>
           validateUnifiedTtl (fixedZone off) now (Date t) (Date s)
             = \<lparr>isValid = True, errors = []\<rparr>)
        \<and> (t - s < DAY_MS \<or> t - s > 28 * DAY_MS \<or> t \<le> now \<longrightarrow>
             \<not> isValid (validateUnifiedTtl (fixedZone off) now (Date t) (Date s))
             \<and> errors (validateUnifiedTtl (fixedZone off) now (Date t) (Date s)) \<noteq> []))
   \<and> (ttl = InvalidDate \<or> scheduled = InvalidDate \<longrightarrow>
        \<not> isValid (validateUnifiedTtl zone now ttl scheduled)
        \<and> errors (validateUnifiedTtl zone now ttl scheduled) \<noteq> [])
   \<and> (isValid (validateUnifiedTtl zone now ttl scheduled)
        \<longleftrightarrow> errors (validateUnifiedTtl zone now ttl scheduled) = [])"
proof -
  have general: "(lo \<le> t \<and> t \<le> hi \<and> now < t \<longrightarrow>
         validateUnifiedTtl zone now (Date t) (Date s) = \<lparr>isValid = True, errors = []\<rparr>)
      \<and> (t < lo \<or> hi < t \<or> t \<le> now \<longrightarrow>
           \<not> isValid (validateUnifiedTtl zone now (Date t) (Date s))
           \<and> errors (validateUnifiedTtl zone now (Date t) (Date s)) \<noteq> [])"
    if "addDays zone (Date s) 1 = Date lo" and "addDays zone (Date s) 28 = Date hi"
    for zone lo hi
    by (auto simp: validateUnifiedTtl_bounds [OF that])
  have fixed: "(DAY_MS \<le> t - s \<and> t - s \<le> 28 * DAY_MS \<and> now < t \<longrightarrow>
           validateUnifiedTtl (fixedZone off) now (Date t) (Date s)
             = \<lparr>isValid = True, errors = []\<rparr>)
        \<and> (t - s < DAY_MS \<or> t - s > 28 * DAY_MS \<or> t \<le> now \<longrightarrow>
             \<not> isValid (validateUnifiedTtl (fixedZone off) now (Date t) (Date s))
             \<and> errors (validateUnifiedTtl (fixedZone off) now (Date t) (Date s)) \<noteq> [])"
    if v: "validTime s" "validTime (s + 28 * DAY_MS)"
  proof -
    have "validTime (s + DAY_MS)"
      using v validTime_between [of s 1] by simp
    then have lo: "addDays (fixedZone off) (Date s) 1 = Date (s + DAY_MS)"
      using addDays_fixedZone [of s 1 off] by simp
    have hi: "addDays (fixedZone off) (Date s) 28 = Date (s + 28 * DAY_MS)"
      using v addDays_fixedZone [of s 28 off] by simp
    show ?thesis
      using general [OF lo hi] by (simp add: algebra_simps)
  qed
  have parse: "\<not> isValid (validateUnifiedTtl zone now ttl scheduled)
        \<and> errors (validateUnifiedTtl zone now ttl scheduled) \<noteq> []"
    if "ttl = InvalidDate \<or> scheduled = InvalidDate"
    using that by (auto simp: validateUnifiedTtl_def Let_def)
  have structured: "isValid (validateUnifiedTtl zone now ttl scheduled)
        \<longleftrightarrow> errors (validateUnifiedTtl zone now ttl scheduled) = []"
    by (auto simp: validateUnifiedTtl_def Let_def)
  show ?thesis
    using general [of zone lo hi] fixed parse structured by blast
qed

theorem validateUnifiedTtl_window_witness:
  "validateUnifiedTtl (fixedZone 19800000) 0 (Date (1000 + DAY_MS)) (Date 1000)
     = \<lparr>isValid = True, errors = []\<rparr>
   \<and> validateUnifiedTtl (fixedZone 19800000) 0 (Date (1000 + 28 * DAY_MS)) (Date 1000)
       = \<lparr>isValid = True, errors = []\<rparr>
   \<and> \<not> isValid (validateUnifiedTtl (fixedZone 19800000) 0 (Date (999 + DAY_MS)) (Date 1000))
   \<and> errors (validateUnifiedTtl (fixedZone 19800000) 0 (Date (1001 + 28 * DAY_MS)) (Date 1000))
       \<noteq> []
   \<and> \<not> isValid (validateUnifiedTtl (fixedZone 19800000) 0 InvalidDate (Date 1000))
   \<and> validateUnifiedTtl autumnZone 1761000000000 (Date (1761393600000 + 25 * HOUR_MS))
         (Date 1761393600000)
       = \<lparr>isValid = True, errors = []\<rparr>"
proof -
  have v: "validTime 1000" "validTime (1000 + 28 * DAY_MS)"
    by (simp_all add: validTime_def MAX_TIME_def DAY_MS_def)
  have hi: "addDays autumnZone (Date 1761393600000) 28
      = Date (1761393600000 + 28 * DAY_MS + HOUR_MS)"
    by (simp add: addDays.simps autumnZone_def LocalTime_def UTC_def TimeClip_def validTime_def
        MAX_TIME_def HOUR_MS_def DAY_MS_def)
  have a: "validateUnifiedTtl (fixedZone 19800000) 0 (Date (1000 + DAY_MS)) (Date 1000)
     = \<lparr>isValid = True, errors = []\<rparr>"
    using validateUnifiedTtl_window [of "fixedZone 19800000" 1000 0 0 "1000 + DAY_MS" 0
        19800000 InvalidDate "Date 1000"] v
    by (simp add: DAY_MS_def)
  have b: "validateUnifiedTtl (fixedZone 19800000) 0 (Date (1000 + 28 * DAY_MS)) (Date 1000)
       = \<lparr>isValid = True, errors = []\<rparr>"
    using validateUnifiedTtl_window [of "fixedZone 19800000" 1000 0 0 "1000 + 28 * DAY_MS" 0
        19800000] v
    by (simp add: DAY_MS_def)
  have c: "\<not> isValid (validateUnifiedTtl (fixedZone 19800000) 0 (Date (999 + DAY_MS)) (Date 1000))"
    using validateUnifiedTtl_window [of "fixedZone 19800000" 1000 0 0 "999 + DAY_MS" 0
        19800000] v
    by (simp add: DAY_MS_def)
  have d: "errors (validateUnifiedTtl (fixedZone 19800000) 0 (Date (1001 + 28 * DAY_MS))
        (Date 1000)) \<noteq> []"
    using validateUnifiedTtl_window [of "fixedZone 19800000" 1000 0 0 "1001 + 28 * DAY_MS" 0
        19800000] v
    by (simp add: DAY_MS_def)
  have e: "\<not> isValid (validateUnifiedTtl (fixedZone 19800000) 0 InvalidDate (Date 1000))"
    using validateUnifiedTtl_window [of "fixedZone 19800000" 1000 0 0 0 0 0 InvalidDate
        "Date 1000"]
    by simp
  have f: "validateUnifiedTtl autumnZone 1761000000000 (Date (1761393600000 + 25 * HOUR_MS))
         (Date 1761393600000)
       = \<lparr>isValid = True, errors = []\<rparr>"
    using validateUnifiedTtl_window [of autumnZone 1761393600000 "1761393600000 + 25 * HOUR_MS"
        "1761393600000 + 28 * DAY_MS + HOUR_MS" "1761393600000 + 25 * HOUR_MS" 1761000000000]
      addDays_autumnZone hi
    by (simp add: DAY_MS_def HOUR_MS_def)
  show ?thesis
    using a b c d e f by simp
qed




section \<open>The decision on a failed attempt\<close>

lemma process_disabled:
  "\<not> enabled (retryConfig s) \<Longrightarrow>
   processRetryAttempt zone now cid code s = Inr (refuse RetryDisabled)"
  by (simp add: processRetryAttempt_def)

lemma process_expired:
  "enabled (retryConfig s) \<Longrightarrow> ttlMissingOrPassed now s \<Longrightarrow>
   processRetryAttempt zone now cid code s = Inr (refuse TtlExpired)"
  by (cases "ttlDateTime (retryConfig s)")
    (simp_all add: processRetryAttempt_def ttlMissingOrPassed_def)

lemma process_no_policy:
  "enabled (retryConfig s) \<Longrightarrow> \<not> ttlMissingOrPassed now s \<Longrightarrow>
   DEFAULT_RETRY_POLICIES code = NoEntry \<Longrightarrow>
   processRetryAttempt zone now cid code s = Inr (refuse (NoPolicy code))"
  by (cases "ttlDateTime (retryConfig s)")
    (simp_all add: processRetryAttempt_def ttlMissingOrPassed_def getRetryPolicy_def)

lemma process_unknown_code:
  assumes "DEFAULT_RETRY_POLICIES code = NoEntry"
  shows "\<exists>out. processRetryAttempt zone now cid code s = Inr out \<and> \<not> shouldRetry out
           \<and> decision_nextAttemptAt out = None"
proof (cases "enabled (retryConfig s)")
  case False
  then show ?thesis
    by (simp add: process_disabled refuse_def)
next
  case True
  then show ?thesis
    using assms
    by (cases "ttlMissingOrPassed now s")
      (simp_all add: process_expired process_no_policy refuse_def)
qed

lemma process_returns:
  assumes "code \<notin> set objectPrototypeMembers"
    and "(case lastAttemptAt s of Some d \<Rightarrow> d | None \<Rightarrow> Date now) = Date l"
    and "\<forall>h \<in> set (intervalsOf code). addHours zone (Date l) h \<noteq> InvalidDate"
  shows "\<exists>out. processRetryAttempt zone now cid code s = Inr out"
proof -
  have "calculateNextRetryAttempt zone now code (int (length (attempts s))) (Date l) ttl \<noteq> Inl e"
    for ttl e
    using assms(1,3) by (rule calculate_returns)
  then show ?thesis
    unfolding processRetryAttempt_def Let_def assms(2)
    by (auto split: option.splits sum.splits)
qed

text \<open>An error code that names a member of \<^verbatim>\<open>Object.prototype\<close> passes the guard for a missing policy.\<close>

lemma process_inherited_name:
  "processRetryAttempt (fixedZone 0) 0 ''c1'' ''constructor''
     (stateWith ''c1'' True (Some (Date 1000)) None None) = Inl TypeError"
  by (simp add: processRetryAttempt_def stateWith_def getRetryPolicy_def
      DEFAULT_RETRY_POLICIES_def objectPrototypeMembers_def requiresTemplate_def
      calculateNextRetryAttempt_def isRetryTtlExpired_def)

text \<open>
  The claim C5 as the specification states it ends with: for every retry state,
  processRetryAttempt returns a structured result and never throws. A state whose
  \<^verbatim>\<open>lastAttemptAt\<close> is a string that is no datetime refutes it: with retry enabled,
  a deadline ahead and a policy with an interval left, the candidate is an invalid date
  and \<^verbatim>\<open>toISOString\<close> throws, so the promise is rejected.
\<close>

theorem processRetryAttempt_throws:
  "processRetryAttempt (fixedZone 0) 0 ''c1'' ''131049''
     (stateWith ''c1'' True (Some (Date 1000)) (Some InvalidDate) None) = Inl RangeError"
  by (simp add: processRetryAttempt_def stateWith_def getRetryPolicy_def
      DEFAULT_RETRY_POLICIES_def isTemplateActive_def calculateNextRetryAttempt_def
      isRetryTtlExpired_def Let_def addHours.simps)

text \<open>
  C5, amended. For every retry state and error code, processRetryAttempt answers
  shouldRetry = false with nextAttemptAt = null and the reason that retry is disabled
  when \<^verbatim>\<open>retryConfig.enabled\<close> is false; otherwise shouldRetry = false with the
  reason that the deadline has expired when \<^verbatim>\<open>retryConfig.ttlDateTime\<close> is missing
  or has passed; otherwise shouldRetry = false with the reason that no policy is found
  when the error code is neither a key of the policy table nor the name of a member of
  \<^verbatim>\<open>Object.prototype\<close>. Such an error code gets shouldRetry = false on every state.
  The call returns a structured result, and does not throw, whenever the error code is
  no name of a member of \<^verbatim>\<open>Object.prototype\<close>, \<^verbatim>\<open>lastAttemptAt\<close> is absent or
  a parsable datetime, and the candidate times that \<^verbatim>\<open>setHours\<close> computes from it
  with the intervals of the policy are within the range of time values.
\<close>

theorem processRetryAttempt_refusals:
  "(\<not> enabled (retryConfig s) \<longrightarrow>
      processRetryAttempt zone now cid code s = Inr (refuse RetryDisabled))
   \<and> (enabled (retryConfig s) \<and> ttlMissingOrPassed now s \<longrightarrow>
        processRetryAttempt zone now cid code s = Inr (refuse TtlExpired))
   \<and> (enabled (retryConfig s) \<and> \<not> ttlMissingOrPassed now s
        \<and> DEFAULT_RETRY_POLICIES code = NoEntry \<longrightarrow>
        processRetryAttempt zone now cid code s = Inr (refuse (NoPolicy code)))
   \<and> (DEFAULT_RETRY_POLICIES code = NoEntry \<longrightarrow>
        (\<exists>out. processRetryAttempt zone now cid code s = Inr out \<and> \<not> shouldRetry out
               \<and> decision_nextAttemptAt out = None))
   \<and> (code \<notin> set objectPrototypeMembers
        \<and> (case lastAttemptAt s of Some d \<Rightarrow> d | None \<Rightarrow> Date now) = Date l
        \<and> (\<forall>h \<in> set (intervalsOf code). addHours zone (Date l) h \<noteq> InvalidDate) \<longrightarrow>
        (\<exists>out. processRetryAttempt zone now cid code s = Inr out))
   \<and> (DEFAULT_RETRY_POLICIES code = NoEntry
        \<longleftrightarrow> code \<notin> set [''131049'', ''130472'', ''132015''] \<and> code \<notin> set objectPrototypeMembers)
   \<and> refuse r = \<lparr>decision_nextAttemptAt = None, shouldRetry = False, reason = r\<rparr>"
proof -
  have keys: "DEFAULT_RETRY_POLICIES code = NoEntry
        \<longleftrightarrow> code \<notin> set [''131049'', ''130472'', ''132015''] \<and> code \<notin> set objectPrototypeMembers"
    by (simp add: DEFAULT_RETRY_POLICIES_def)
  show ?thesis
    using process_disabled process_expired process_no_policy process_unknown_code
      process_returns [where l = l] keys
    by (simp add: refuse_def)
qed

theorem processRetryAttempt_refusals_witness:
  "processRetryAttempt (fixedZone 0) 2000 ''c1'' ''131049'' (stateWith ''c1'' False None None None)
     = Inr \<lparr>decision_nextAttemptAt = None, shouldRetry = False, reason = RetryDisabled\<rparr>
   \<and> processRetryAttempt (fixedZone 0) 2000 ''c1'' ''131049''
       (stateWith ''c1'' True None None None)
     = Inr \<lparr>decision_nextAttemptAt = None, shouldRetry = False, reason = TtlExpired\<rparr>
   \<and> processRetryAttempt (fixedZone 0) 2000 ''c1'' ''131049''
       (stateWith ''c1'' True (Some (Date 1000)) None None)
     = Inr \<lparr>decision_nextAttemptAt = None, shouldRetry = False, reason = TtlExpired\<rparr>
   \<and> processRetryAttempt (fixedZone 0) 2000 ''c1'' ''999''
       (stateWith ''c1'' True (Some (Date 3000)) None None)
     = Inr \<lparr>decision_nextAttemptAt = None, shouldRetry = False, reason = NoPolicy ''999''\<rparr>
   \<and> (\<exists>out. processRetryAttempt (fixedZone 0) 2000 ''c1'' ''131049''
               (stateWith ''c1'' True (Some (Date 3000)) (Some (Date 1500)) None) = Inr out)"
proof -
  have a: "processRetryAttempt (fixedZone 0) 2000 ''c1'' ''131049''
       (stateWith ''c1'' False None None None)
     = Inr \<lparr>decision_nextAttemptAt = None, shouldRetry = False, reason = RetryDisabled\<rparr>"
    using processRetryAttempt_refusals
      [where s = "stateWith ''c1'' False None None None" and zone = "fixedZone 0" and now = 2000
        and cid = "''c1''" and code = "''131049''" and r = RetryDisabled]
    by (simp add: stateWith_def)
  have b: "processRetryAttempt (fixedZone 0) 2000 ''c1'' ''131049''
       (stateWith ''c1'' True None None None)
     = Inr \<lparr>decision_nextAttemptAt = None, shouldRetry = False, reason = TtlExpired\<rparr>"
    using processRetryAttempt_refusals
      [where s = "stateWith ''c1'' True None None None" and zone = "fixedZone 0" and now = 2000
        and cid = "''c1''" and code = "''131049''" and r = TtlExpired]
    by (simp add: stateWith_def ttlMissingOrPassed_def)
  have c: "processRetryAttempt (fixedZone 0) 2000 ''c1'' ''131049''
       (stateWith ''c1'' True (Some (Date 1000)) None None)
     = Inr \<lparr>decision_nextAttemptAt = None, shouldRetry = False, reason = TtlExpired\<rparr>"
    using processRetryAttempt_refusals
      [where s = "stateWith ''c1'' True (Some (Date 1000)) None None" and zone = "fixedZone 0" and now = 2000
        and cid = "''c1''" and code = "''131049''" and r = TtlExpired]
    by (simp add: stateWith_def ttlMissingOrPassed_def isRetryTtlExpired_def)
  have d: "processRetryAttempt (fixedZone 0) 2000 ''c1'' ''999''
       (stateWith ''c1'' True (Some (Date 3000)) None None)
     = Inr \<lparr>decision_nextAttemptAt = None, shouldRetry = False, reason = NoPolicy ''999''\<rparr>"
    using processRetryAttempt_refusals
      [where s = "stateWith ''c1'' True (Some (Date 3000)) None None" and zone = "fixedZone 0" and now = 2000
        and cid = "''c1''" and code = "''999''" and r = "NoPolicy ''999''"]
    by (simp add: stateWith_def ttlMissingOrPassed_def isRetryTtlExpired_def
        objectPrototypeMembers_def)
  have valid: "\<forall>h \<in> set (intervalsOf ''131049''). addHours (fixedZone 0) (Date 1500) h \<noteq> InvalidDate"
    by (simp add: intervalsOf_known addHours_fixedZone validTime_def MAX_TIME_def HOUR_MS_def)
  have e: "\<exists>out. processRetryAttempt (fixedZone 0) 2000 ''c1'' ''131049''
               (stateWith ''c1'' True (Some (Date 3000)) (Some (Date 1500)) None) = Inr out"
    using processRetryAttempt_refusals
      [where s = "stateWith ''c1'' True (Some (Date 3000)) (Some (Date 1500)) None" and zone = "fixedZone 0" and now = 2000
        and cid = "''c1''" and code = "''131049''" and l = 1500]
      valid
    by (simp add: stateWith_def objectPrototypeMembers_def)
  show ?thesis
    using a b c d e by simp
qed

text \<open>
  C9. isTemplateActive answers true for every template. So the branch of
  processRetryAttempt that blocks error code 132015 while the template is paused is
  never taken: on no input does processRetryAttempt answer with the reason that the
  template is still paused.
\<close>

theorem template_never_blocks:
  "isTemplateActive templateId
   \<and> reasonOf (processRetryAttempt zone now cid code s) \<noteq> Some TemplatePaused"
  by (auto simp: isTemplateActive_def reasonOf_def processRetryAttempt_def refuse_def Let_def
        split: option.splits sum.splits)

theorem template_never_blocks_witness:
  "isTemplateActive ''c1''
   \<and> reasonOf (processRetryAttempt (fixedZone 0) 2000 ''c1'' ''132015''
                  (stateWith ''c1'' True (Some (Date 1000000000)) (Some (Date 1500)) None))
       \<noteq> Some TemplatePaused
   \<and> reasonOf (processRetryAttempt (fixedZone 0) 2000 ''c1'' ''132015''
                  (stateWith ''c1'' True (Some (Date 1000000000)) (Some (Date 1500)) None))
       = Some (RetryScheduled (Some (Date (1500 + 24 * HOUR_MS))))"
  using template_never_blocks
      [where templateId = "''c1''" and zone = "fixedZone 0" and now = 2000 and cid = "''c1''"
        and code = "''132015''"
        and s = "stateWith ''c1'' True (Some (Date 1000000000)) (Some (Date 1500)) None"]
  by (simp add: reasonOf_def processRetryAttempt_def stateWith_def getRetryPolicy_def
      DEFAULT_RETRY_POLICIES_def isTemplateActive_def calculateNextRetryAttempt_def
      isRetryTtlExpired_def Let_def HOUR_MS_def addHours.simps fixedZone_def LocalTime_def
      UTC_def TimeClip_def validTime_def MAX_TIME_def requiresTemplate_def)

section \<open>The store\<close>

lemma states_get_set:
  "states_get (states_set st cid v) k = (if k = cid then Some v else states_get st k)"
  by (induction st cid v rule: states_set.induct) (auto simp: states_get_def)

lemma keys_states_set:
  "states_get st cid = Some w \<Longrightarrow> map fst (states_set st cid v) = map fst st"
  by (induction st cid v rule: states_set.induct) (auto simp: states_get_def)

lemma states_set_other:
  "k \<noteq> cid \<Longrightarrow> (k, w) \<in> set (states_set st cid v) \<longleftrightarrow> (k, w) \<in> set st"
  by (induction st cid v rule: states_set.induct) auto

lemma updateRetryAttempt_other:
  "k \<noteq> cid \<Longrightarrow> (k, w) \<in> set (updateRetryAttempt now st cid a) \<longleftrightarrow> (k, w) \<in> set st"
  by (simp add: updateRetryAttempt_def states_set_other split: option.splits)

lemma setNextAttemptAt_other:
  "k \<noteq> cid \<Longrightarrow> (k, w) \<in> set (setNextAttemptAt st cid d) \<longleftrightarrow> (k, w) \<in> set st"
  by (simp add: setNextAttemptAt_def states_set_other split: option.splits)

text \<open>
  The keys of a \<^verbatim>\<open>Map\<close> are distinct. The functions that write to the store keep
  them so.
\<close>

lemma keys_states_set_new:
  "states_get st cid = None \<Longrightarrow> map fst (states_set st cid v) = map fst st @ [cid]"
  by (induction st cid v rule: states_set.induct) (auto simp: states_get_def split: if_splits)

lemma distinct_states_set:
  "distinct (map fst st) \<Longrightarrow> distinct (map fst (states_set st cid v))"
proof (cases "states_get st cid")
  case None
  then have "cid \<notin> set (map fst st)"
    by (simp add: states_get_def map_of_eq_None_iff)
  then show "distinct (map fst st) \<Longrightarrow> distinct (map fst (states_set st cid v))"
    using None by (simp add: keys_states_set_new)
next
  case (Some w)
  then show "distinct (map fst st) \<Longrightarrow> distinct (map fst (states_set st cid v))"
    by (simp add: keys_states_set)
qed

lemma distinct_setRetryConfig:
  "distinct (map fst st) \<Longrightarrow> distinct (map fst (setRetryConfig now st cid c))"
  by (simp add: setRetryConfig_def distinct_states_set split: option.splits)

lemma keys_updateRetryAttempt:
  "map fst (updateRetryAttempt now st cid a) = map fst st"
  by (simp add: updateRetryAttempt_def keys_states_set split: option.splits)

lemma keys_setNextAttemptAt:
  "map fst (setNextAttemptAt st cid d) = map fst st"
  by (simp add: setNextAttemptAt_def getRetryState_def keys_states_set split: option.splits)

subsection \<open>The scan for campaigns to retry\<close>

lemma retryCallback_fst:
  "fst (retryCallback now s) = (if newlyExpired now s then s\<lparr>isExpired := True\<rparr> else s)"
  by (auto simp: retryCallback_def newlyExpired_def ttlPassed_def split: option.splits)

lemma retryCallback_snd: "snd (retryCallback now s) = eligible now s"
  by (auto simp: retryCallback_def eligible_def ttlPassed_def nextAttemptDue_def
        split: option.splits)

lemma eligible_not_newly: "eligible now s \<Longrightarrow> \<not> newlyExpired now s"
  by (simp add: eligible_def newlyExpired_def)

text \<open>The loop, for any list collected so far: it filters the entries and marks the expired.\<close>

lemma forEachEntry_eq:
  "forEachEntry now st acc =
     (acc @ filter (\<lambda>(cid, s). eligible now s) st,
      map (\<lambda>(cid, s). (cid, if newlyExpired now s then s\<lparr>isExpired := True\<rparr> else s)) st)"
proof (induction st arbitrary: acc)
  case Nil
  show ?case by simp
next
  case (Cons e st)
  obtain cid s where e: "e = (cid, s)"
    by (cases e)
  obtain s' push where cb: "retryCallback now s = (s', push)"
    by (cases "retryCallback now s")
  have s': "s' = (if newlyExpired now s then s\<lparr>isExpired := True\<rparr> else s)"
    using retryCallback_fst [of now s] cb by simp
  have push: "push = eligible now s"
    using retryCallback_snd [of now s] cb by simp
  show ?case
    using Cons.IH eligible_not_newly [of now s]
    by (auto simp: e cb s' push)
qed

lemma keys_getCampaignsForRetry:
  "map fst (snd (getCampaignsForRetry now st)) = map fst st"
  by (simp add: getCampaignsForRetry_def forEachEntry_eq split_beta)

text \<open>
  The claim C2 as the specification states it has the scan set \<^verbatim>\<open>isExpired\<close> on any
  entry it scans whose deadline has passed. The callback returns on a disabled entry
  before it looks at the deadline. A campaign configured at time 0 with retry disabled
  and a deadline at time 100 is in the store, not marked expired; the scan at time 1000,
  after the deadline, leaves it so.
\<close>

theorem getCampaignsForRetry_skips_disabled:
  "map (\<lambda>(cid, s). (cid, ttlPassed 1000 s, isExpired s))
     (snd (getCampaignsForRetry 1000
        (setRetryConfig 0 [] ''c2'' (configWith False (Some (Date 100))))))
   = [(''c2'', True, False)]"
  by (simp add: getCampaignsForRetry_def retryCallback_def setRetryConfig_def states_get_def
      createRetryState_def configWith_def ttlPassed_def isRetryTtlExpired_def)

text \<open>
  C2, amended. getCampaignsForRetry returns exactly the stored entries, in the order of
  the store, whose retry is enabled, that are not marked expired, whose deadline (when
  set) has not passed, and whose next attempt time is set and not after \<open>now\<close>. No
  entry it returns is marked expired or disabled. As a side effect it sets
  \<^verbatim>\<open>isExpired\<close>, in the store, on every entry that is enabled and not yet marked and
  whose deadline has passed; a disabled entry whose deadline has passed is left as it
  is, and the scan changes nothing else in the store.
\<close>

theorem getCampaignsForRetry_scan:
  "fst (getCampaignsForRetry now st) =
     filter (\<lambda>(cid, s). enabled (retryConfig s) \<and> \<not> isExpired s \<and> \<not> ttlPassed now s
                          \<and> nextAttemptDue now s) st
   \<and> (\<forall>(cid, s) \<in> set (fst (getCampaignsForRetry now st)).
         enabled (retryConfig s) \<and> \<not> isExpired s)
   \<and> snd (getCampaignsForRetry now st) =
       map (\<lambda>(cid, s). (cid, if enabled (retryConfig s) \<and> \<not> isExpired s \<and> ttlPassed now s
                               then s\<lparr>isExpired := True\<rparr> else s)) st"
  by (auto simp: getCampaignsForRetry_def forEachEntry_eq eligible_def newlyExpired_def)

theorem getCampaignsForRetry_scan_witness:
  "fst (getCampaignsForRetry 1000 mixedStore) = [(''c1'', dueState ''c1'')]
   \<and> snd (getCampaignsForRetry 1000 mixedStore) =
       [(''c1'', dueState ''c1''),
        (''c2'', stateWith ''c2'' False (Some (Date 100)) None (Some (Date 50))),
        (''c3'', (stateWith ''c3'' True (Some (Date 100)) None (Some (Date 50)))
                   \<lparr>isExpired := True\<rparr>)]"
  using getCampaignsForRetry_scan [of 1000 mixedStore]
  by (simp add: mixedStore_def dueState_def stateWith_def ttlPassed_def nextAttemptDue_def
      isRetryTtlExpired_def)

subsection \<open>Recording an attempt\<close>

text \<open>
  C8. For every retry state and attempt, updateRetryState returns a state whose attempts
  are the old attempts followed by the new one (one more, the earlier ones unchanged),
  whose \<^verbatim>\<open>lastAttemptAt\<close> is the attempt's \<^verbatim>\<open>executedAt\<close>, or the current time when
  that is absent, whose \<^verbatim>\<open>isExpired\<close> is computed anew from the deadline, and whose
  \<^verbatim>\<open>campaignId\<close>, \<^verbatim>\<open>retryConfig\<close> and \<^verbatim>\<open>nextAttemptAt\<close> are unchanged. For a
  campaign that has a state, updateRetryAttempt puts this result in the store in place
  of the old state and leaves the other campaigns and the order of the store as they are.
\<close>

theorem updateRetryState_appends:
  "attempts (updateRetryState now s a) = attempts s @ [a]
   \<and> length (attempts (updateRetryState now s a)) = length (attempts s) + 1
   \<and> take (length (attempts s)) (attempts (updateRetryState now s a)) = attempts s
   \<and> lastAttemptAt (updateRetryState now s a)
       = Some (case executedAt a of Some e \<Rightarrow> e | None \<Rightarrow> Date now)
   \<and> isExpired (updateRetryState now s a)
       = (case ttlDateTime (retryConfig s) of
            Some ttl \<Rightarrow> isRetryTtlExpired now ttl | None \<Rightarrow> False)
   \<and> campaignId (updateRetryState now s a) = campaignId s
   \<and> retryConfig (updateRetryState now s a) = retryConfig s
   \<and> nextAttemptAt (updateRetryState now s a) = nextAttemptAt s
   \<and> (states_get st cid = Some s \<longrightarrow>
        states_get (updateRetryAttempt now st cid a) cid = Some (updateRetryState now s a)
        \<and> (\<forall>k. k \<noteq> cid \<longrightarrow> states_get (updateRetryAttempt now st cid a) k = states_get st k)
        \<and> map fst (updateRetryAttempt now st cid a) = map fst st)"
  by (auto simp: updateRetryState_def updateRetryAttempt_def states_get_set keys_states_set)

theorem updateRetryState_appends_witness:
  "states_get (updateRetryAttempt 1000 fiveDue ''c2'' firstAttempt) ''c2''
     = Some ((dueState ''c2'')\<lparr>attempts := [firstAttempt], lastAttemptAt := Some (Date 950)\<rparr>)
   \<and> states_get (updateRetryAttempt 1000 fiveDue ''c2'' firstAttempt) ''c3''
     = Some (dueState ''c3'')
   \<and> map fst (updateRetryAttempt 1000 fiveDue ''c2'' firstAttempt)
     = [''c1'', ''c2'', ''c3'', ''c4'', ''c5'']"
proof -
  have s: "states_get fiveDue ''c2'' = Some (dueState ''c2'')"
    and t: "states_get fiveDue ''c3'' = Some (dueState ''c3'')"
    by (simp_all add: states_get_def fiveDue_def)
  have u: "updateRetryState 1000 (dueState ''c2'') firstAttempt
      = (dueState ''c2'')\<lparr>attempts := [firstAttempt], lastAttemptAt := Some (Date 950)\<rparr>"
    by (simp add: updateRetryState_def dueState_def stateWith_def firstAttempt_def
        isRetryTtlExpired_def)
  show ?thesis
    using updateRetryState_appends [of 1000 "dueState ''c2''" firstAttempt fiveDue "''c2''"] s t u
    by (simp add: fiveDue_def)
qed

text \<open>
  C10. For a campaign that has no retry state in the store, updateRetryAttempt leaves
  the store as it is: it creates no state, changes no entry and raises no error.
\<close>

theorem updateRetryAttempt_absent:
  "states_get st cid = None \<Longrightarrow> updateRetryAttempt now st cid a = st"
  by (simp add: updateRetryAttempt_def)

theorem updateRetryAttempt_absent_witness:
  "states_get fiveDue ''c9'' = None
   \<and> updateRetryAttempt 1000 fiveDue ''c9'' firstAttempt = fiveDue"
proof -
  have absent: "states_get fiveDue ''c9'' = None"
    by (simp add: states_get_def fiveDue_def)
  show ?thesis
    using absent updateRetryAttempt_absent [OF absent, of 1000 firstAttempt] by simp
qed

section \<open>The engine\<close>

subsection \<open>One tick\<close>

lemma states_get_updateRetryAttempt_other:
  "k \<noteq> cid \<Longrightarrow> states_get (updateRetryAttempt now st cid a) k = states_get st k"
  by (simp add: updateRetryAttempt_def states_get_set split: option.splits)

lemma states_get_setNextAttemptAt:
  "states_get (setNextAttemptAt st cid d) k =
     (if k = cid then map_option (\<lambda>s. s\<lparr>nextAttemptAt := Some d\<rparr>) (states_get st cid)
      else states_get st k)"
  by (simp add: setNextAttemptAt_def getRetryState_def states_get_set split: option.splits)

lemma executeCampaignRetry_other:
  "k \<noteq> cid \<Longrightarrow>
   states_get (snd (executeCampaignRetry zone now ex st cid s)) k = states_get st k"
  by (simp add: executeCampaignRetry_def Let_def states_get_updateRetryAttempt_other
        states_get_setNextAttemptAt split: option.splits sum.splits)

lemma executeCampaignRetry_id:
  "result_campaignId (fst (executeCampaignRetry zone now ex st cid s)) = cid"
  by (simp add: executeCampaignRetry_def Let_def split: option.splits sum.splits)

text \<open>
  A retry records its attempt: the entry of its campaign has the attempts it had, and
  the attempt of this retry after them.
\<close>

lemma executeCampaignRetry_appends:
  assumes "states_get st cid = Some s0"
  shows "\<exists>s'. states_get (snd (executeCampaignRetry zone now ex st cid s)) cid = Some s'
           \<and> attempts s' = attempts s0 @ [attemptOf now ex s]
           \<and> lastAttemptAt s' = Some (Date now)"
proof -
  have "states_get (updateRetryAttempt now st cid (attemptOf now ex s)) cid
      = Some (updateRetryState now s0 (attemptOf now ex s))"
    using assms by (simp add: updateRetryAttempt_def states_get_set)
  moreover have "attempts (updateRetryState now s0 (attemptOf now ex s))
      = attempts s0 @ [attemptOf now ex s]"
    by (simp add: updateRetryState_def)
  moreover have "lastAttemptAt (updateRetryState now s0 (attemptOf now ex s)) = Some (Date now)"
    by (simp add: updateRetryState_def attemptOf_def)
  ultimately show ?thesis
    by (auto simp: executeCampaignRetry_def Let_def states_get_setNextAttemptAt
        split: option.splits sum.splits)
qed

lemma runBatch_ids:
  "map result_campaignId (fst (runBatch zone at sim batch st)) = map fst batch"
proof (induction batch arbitrary: st)
  case Nil
  show ?case by simp
next
  case (Cons e batch)
  obtain cid s where e: "e = (cid, s)"
    by (cases e)
  show ?case
    using Cons.IH executeCampaignRetry_id [of zone "at cid" "sim cid" st cid s]
    by (simp add: e split_beta Let_def)
qed

text \<open>A batch leaves the entry of every campaign outside the batch as it was.\<close>

lemma runBatch_other:
  "k \<notin> fst ` set batch \<Longrightarrow>
   states_get (snd (runBatch zone at sim batch st)) k = states_get st k"
proof (induction batch arbitrary: st)
  case Nil
  show ?case by simp
next
  case (Cons e batch)
  obtain cid s where e: "e = (cid, s)"
    by (cases e)
  from Cons.prems have ne: "k \<noteq> cid" and rest: "k \<notin> fst ` set batch"
    by (auto simp: e)
  show ?case
    using Cons.IH [OF rest] executeCampaignRetry_other [OF ne, of zone "at cid" "sim cid" st s]
    by (simp add: e split_beta Let_def)
qed

text \<open>
  The retries of a batch of distinct campaigns record one attempt each, in the state
  that the store holds for the campaign when the batch runs.
\<close>

lemma runBatch_appends:
  assumes "distinct (map fst batch)"
  shows "\<forall>(cid, s) \<in> set batch. \<forall>s0. states_get st cid = Some s0 \<longrightarrow>
           (\<exists>s'. states_get (snd (runBatch zone at sim batch st)) cid = Some s'
             \<and> attempts s' = attempts s0 @ [attemptOf (at cid) (sim cid) s]
             \<and> lastAttemptAt s' = Some (Date (at cid)))"
  using assms
proof (induction batch arbitrary: st)
  case Nil
  show ?case by simp
next
  case (Cons e batch)
  obtain cid s where e: "e = (cid, s)"
    by (cases e)
  define st1 where "st1 = snd (executeCampaignRetry zone (at cid) (sim cid) st cid s)"
  have run: "snd (runBatch zone at sim (e # batch) st) = snd (runBatch zone at sim batch st1)"
    by (simp add: e st1_def split_beta Let_def)
  have fresh: "cid \<notin> fst ` set batch" and d: "distinct (map fst batch)"
    using Cons.prems by (auto simp: e)
  have tail: "\<exists>s'. states_get (snd (runBatch zone at sim batch st1)) c = Some s'
        \<and> attempts s' = attempts s0 @ [attemptOf (at c) (sim c) s2]
        \<and> lastAttemptAt s' = Some (Date (at c))"
    if m: "(c, s2) \<in> set batch" and held: "states_get st c = Some s0" for c s2 s0
  proof -
    have "c \<noteq> cid"
      using fresh m by force
    then have "states_get st1 c = states_get st c"
      unfolding st1_def by (rule executeCampaignRetry_other)
    then have "states_get st1 c = Some s0"
      using held by simp
    then show ?thesis
      using Cons.IH [OF d, of st1] m by blast
  qed
  have head: "\<exists>s'. states_get (snd (runBatch zone at sim batch st1)) cid = Some s'
        \<and> attempts s' = attempts s0 @ [attemptOf (at cid) (sim cid) s]
        \<and> lastAttemptAt s' = Some (Date (at cid))"
    if own: "states_get st cid = Some s0" for s0
    using executeCampaignRetry_appends [OF own, of zone "at cid" "sim cid" s]
      runBatch_other [OF fresh, of zone at sim st1]
    by (simp add: st1_def)
  show ?case
    unfolding run using head tail by (auto simp: e)
qed

lemma distinct_take_drop:
  assumes "distinct (map fst xs)" and "e \<in> set (drop n xs)"
  shows "fst e \<notin> fst ` set (take n xs)"
proof -
  have "distinct (map fst (take n xs) @ map fst (drop n xs))"
    using assms(1) by (simp flip: map_append)
  then show ?thesis
    using assms(2) by auto
qed

lemma nextAttemptDue_mono:
  assumes "nextAttemptDue now s" and "now \<le> now'"
  shows "nextAttemptDue now' s"
proof -
  from assms(1) obtain t where "nextAttemptAt s = Some (Date t)" and "t \<le> now"
    by (cases "nextAttemptAt s"; cases "the (nextAttemptAt s)") (auto simp: nextAttemptDue_def)
  then show ?thesis
    using assms(2) by (simp add: nextAttemptDue_def)
qed

lemma eligible_later:
  "eligible now s \<Longrightarrow> now \<le> now' \<Longrightarrow> \<not> ttlPassed now' s \<Longrightarrow> eligible now' s"
  using nextAttemptDue_mono [of now s now'] by (auto simp: eligible_def)

lemma due_eq: "fst (getCampaignsForRetry now st) = filter (\<lambda>(cid, s). eligible now s) st"
  by (simp add: getCampaignsForRetry_def forEachEntry_eq)

lemma scan_keeps_eligible:
  "(cid, s) \<in> set st \<Longrightarrow> eligible now s \<Longrightarrow>
   (cid, s) \<in> set (snd (getCampaignsForRetry now st))"
  using eligible_not_newly [of now s]
  by (force simp: getCampaignsForRetry_def forEachEntry_eq)

lemma states_get_mem:
  "distinct (map fst st) \<Longrightarrow> (cid, s) \<in> set st \<Longrightarrow> states_get st cid = Some s"
  by (simp add: states_get_def)

lemma slice0_nonneg: "0 \<le> m \<Longrightarrow> slice0 xs (min (int (length xs)) m) = take (nat m) xs"
  by (simp add: slice0_def Let_def min_def)

lemma batchOf_nonneg:
  "0 \<le> maxConcurrentRetries c \<Longrightarrow> batchOf c due = take (nat (maxConcurrentRetries c)) due"
  by (simp add: batchOf_def Let_def slice0_nonneg)

lemma batchOf_prefix: "\<exists>n. batchOf c due = take n due"
  by (auto simp: batchOf_def slice0_def Let_def)

lemma processRetries_results:
  "map result_campaignId (fst (processRetries zone c now at sim st)) =
     map fst (batchOf c (fst (getCampaignsForRetry now st)))"
proof (cases "fst (getCampaignsForRetry now st)")
  case Nil
  then show ?thesis
    using batchOf_prefix [of c "[]"] by (auto simp: processRetries_def split_beta)
next
  case (Cons e es)
  then show ?thesis
    by (simp add: processRetries_def split_beta runBatch_ids)
qed

lemma processRetries_store:
  "snd (processRetries zone c now at sim st) =
     snd (runBatch zone at sim (batchOf c (fst (getCampaignsForRetry now st)))
            (snd (getCampaignsForRetry now st)))"
proof (cases "fst (getCampaignsForRetry now st)")
  case Nil
  then show ?thesis
    using batchOf_prefix [of c "[]"] by (auto simp: processRetries_def split_beta)
next
  case (Cons e es)
  then show ?thesis
    by (simp add: processRetries_def split_beta)
qed

lemma keys_executeCampaignRetry:
  "map fst (snd (executeCampaignRetry zone now ex st cid s)) = map fst st"
  by (simp add: executeCampaignRetry_def Let_def keys_updateRetryAttempt keys_setNextAttemptAt
        split: option.splits sum.splits)

lemma keys_runBatch:
  "map fst (snd (runBatch zone at sim batch st)) = map fst st"
proof (induction batch arbitrary: st)
  case Nil
  show ?case by simp
next
  case (Cons e batch)
  obtain cid s where e: "e = (cid, s)"
    by (cases e)
  show ?case
    using Cons.IH keys_executeCampaignRetry [of zone "at cid" "sim cid" st cid s]
    by (simp add: e split_beta Let_def)
qed

text \<open>A tick keeps the campaigns of the store and their order.\<close>

lemma keys_processRetries:
  "map fst (snd (processRetries zone c now at sim st)) = map fst st"
  by (simp add: processRetries_store keys_runBatch keys_getCampaignsForRetry)

text \<open>
  The claim C7 as the specification states it has a tick dispatch the first
  \<open>min (length due) maxConcurrentRetries\<close> entries of the due list. The engine takes
  its configuration unchecked. With maxConcurrentRetries = -1 and five campaigns due,
  the batch size is -1, \<^verbatim>\<open>slice(0, -1)\<close> drops the last entry, and the tick records
  an attempt for four campaigns.
\<close>

theorem processRetries_negative_limit:
  "map (\<lambda>(cid, s). (cid, length (attempts s)))
     (snd (processRetries (fixedZone 0) (engineConfig (- 1) 60000) 1000 (\<lambda>cid. 1100)
             frequencyCapped fiveDue))
   = [(''c1'', 1), (''c2'', 1), (''c3'', 1), (''c4'', 1), (''c5'', 0)]"
proof -
  have due: "getCampaignsForRetry 1000 fiveDue = (fiveDue, fiveDue)"
    by (simp add: getCampaignsForRetry_def forEachEntry_eq eligible_def newlyExpired_def
        fiveDue_def dueState_def stateWith_def ttlPassed_def nextAttemptDue_def
        isRetryTtlExpired_def)
  have batch: "batchOf (engineConfig (- 1) 60000) fiveDue = take 4 fiveDue"
    by (simp add: batchOf_def slice0_def engineConfig_def fiveDue_def)
  have dec: "processRetryAttempt (fixedZone 0) 1100 k ''131049'' (dueState k)
     = Inr \<lparr>decision_nextAttemptAt = Some (Date (1100 + 12 * HOUR_MS)), shouldRetry = True,
            reason = RetryScheduled (Some (Date (1100 + 12 * HOUR_MS)))\<rparr>" for k
    by (simp add: processRetryAttempt_def dueState_def stateWith_def isRetryTtlExpired_def
        getRetryPolicy_def DEFAULT_RETRY_POLICIES_def calculateNextRetryAttempt_def Let_def
        addHours_fixedZone validTime_def MAX_TIME_def HOUR_MS_def
        objectPrototypeMembers_def TimeClip_def)
  have "map (\<lambda>(cid, s). (cid, length (attempts s)))
     (snd (runBatch (fixedZone 0) (\<lambda>cid. 1100) frequencyCapped (take 4 fiveDue) fiveDue))
   = [(''c1'', 1), (''c2'', 1), (''c3'', 1), (''c4'', 1), (''c5'', 0)]"
    by (simp add: fiveDue_def split_beta Let_def executeCampaignRetry_def dec
        frequencyCapped_def updateRetryAttempt_def setNextAttemptAt_def getRetryState_def
        states_get_def attemptOf_def updateRetryState_def)
      (simp add: dueState_def stateWith_def)
  then show ?thesis
    by (simp add: processRetries_store due batch)
qed

text \<open>
  C7, amended. Let maxConcurrentRetries be a whole number that is not negative, let the
  campaigns of the store be distinct, as the keys of a \<^verbatim>\<open>Map\<close> are, and let \<open>n\<close>
  be \<open>min (length due) maxConcurrentRetries\<close> for the due list of the scan of a tick.
  Then the tick dispatches retries for exactly the first \<open>n\<close> entries of the due list:

    \<^item> its results are those of the campaigns of \<open>take n due\<close>, in that order;
    \<^item> for each entry of \<open>take n due\<close> the store after the tick holds the attempts the
      entry had, and after them the attempt of this tick;
    \<^item> for each entry of \<open>drop n due\<close> the store after the tick holds the state of the
      scan, with no attempt added, and every campaign outside \<open>take n due\<close> has the
      state the scan left;
    \<^item> each entry of \<open>drop n due\<close> is due again at every later scan at which its TTL has
      not passed;
    \<^item> with maxConcurrentRetries = 2 and five campaigns due, two are dispatched and three
      are left;
    \<^item> whatever the store holds when the retries of a batch of distinct campaigns go on,
      each of them adds its attempt to the state the store holds for its campaign, and
      the campaigns outside the batch are left as they are.
\<close>

theorem processRetries_batch:
  fixes zone :: timeZone and c :: RetryEngineConfig and now :: int and at :: "string \<Rightarrow> int"
    and sim :: "string \<Rightarrow> execution" and st :: store and held :: store
  defines "due \<equiv> fst (getCampaignsForRetry now st)"
  defines "n \<equiv> nat (min (int (length due)) (maxConcurrentRetries c))"
  defines "after \<equiv> snd (processRetries zone c now at sim st)"
  shows "0 \<le> maxConcurrentRetries c \<and> distinct (map fst st) \<longrightarrow>
     map result_campaignId (fst (processRetries zone c now at sim st)) = map fst (take n due)
   \<and> (\<forall>(cid, s) \<in> set (take n due).
        \<exists>s'. states_get after cid = Some s'
          \<and> attempts s' = attempts s @ [attemptOf (at cid) (sim cid) s]
          \<and> lastAttemptAt s' = Some (Date (at cid)))
   \<and> (\<forall>(cid, s) \<in> set (drop n due). states_get after cid = Some s)
   \<and> (\<forall>k. k \<notin> fst ` set (take n due) \<longrightarrow>
        states_get after k = states_get (snd (getCampaignsForRetry now st)) k)
   \<and> (\<forall>now'. now \<le> now' \<longrightarrow>
        (\<forall>(cid, s) \<in> set (drop n due). \<not> ttlPassed now' s \<longrightarrow>
           (cid, s) \<in> set (fst (getCampaignsForRetry now' after))))
   \<and> (maxConcurrentRetries c = 2 \<and> length due = 5 \<longrightarrow>
        length (take n due) = 2 \<and> length (drop n due) = 3)
   \<and> (distinct (map fst batch) \<longrightarrow>
        (\<forall>(cid, s) \<in> set batch. \<forall>s0. states_get held cid = Some s0 \<longrightarrow>
           (\<exists>s'. states_get (snd (runBatch zone at sim batch held)) cid = Some s'
              \<and> attempts s' = attempts s0 @ [attemptOf (at cid) (sim cid) s]
              \<and> lastAttemptAt s' = Some (Date (at cid))))
        \<and> (\<forall>k. k \<notin> fst ` set batch \<longrightarrow>
             states_get (snd (runBatch zone at sim batch held)) k = states_get held k))"
proof (intro impI, elim conjE)
  assume m: "0 \<le> maxConcurrentRetries c" and d: "distinct (map fst st)"
  define st1 where "st1 = snd (getCampaignsForRetry now st)"
  have batch: "batchOf c due = take n due"
    using m by (simp add: batchOf_nonneg n_def min_def nat_le_iff)
  have after: "after = snd (runBatch zone at sim (take n due) st1)"
    by (simp add: after_def processRetries_store st1_def batch [unfolded due_def] due_def)
  have d1: "distinct (map fst st1)"
    using d by (simp add: st1_def keys_getCampaignsForRetry)
  have dd: "distinct (map fst due)"
    using d by (simp add: due_def due_eq distinct_map_filter)
  have stored: "states_get st1 cid = Some s" if "(cid, s) \<in> set due" for cid s
  proof -
    from that have "(cid, s) \<in> set st" and "eligible now s"
      by (auto simp: due_def due_eq)
    then have "(cid, s) \<in> set st1"
      unfolding st1_def by (rule scan_keeps_eligible)
    with d1 show ?thesis
      by (rule states_get_mem)
  qed
  have ids: "map result_campaignId (fst (processRetries zone c now at sim st)) = map fst (take n due)"
    by (simp add: processRetries_results batch [unfolded due_def] due_def)
  have dt: "distinct (map fst (take n due))"
    using dd by (simp add: take_map [symmetric])
  have app: "\<forall>(cid, s) \<in> set (take n due).
        \<exists>s'. states_get after cid = Some s'
          \<and> attempts s' = attempts s @ [attemptOf (at cid) (sim cid) s]
          \<and> lastAttemptAt s' = Some (Date (at cid))"
  proof (clarify)
    fix cid s
    assume m: "(cid, s) \<in> set (take n due)"
    then have h: "states_get st1 cid = Some s"
      using stored by (auto dest: in_set_takeD)
    have "case (cid, s) of (cid, s) \<Rightarrow> \<forall>s0. states_get st1 cid = Some s0 \<longrightarrow>
           (\<exists>s'. states_get (snd (runBatch zone at sim (take n due) st1)) cid = Some s'
             \<and> attempts s' = attempts s0 @ [attemptOf (at cid) (sim cid) s]
             \<and> lastAttemptAt s' = Some (Date (at cid)))"
      using runBatch_appends [OF dt, of st1 zone at sim] m by (rule bspec)
    then show "\<exists>s'. states_get after cid = Some s'
          \<and> attempts s' = attempts s @ [attemptOf (at cid) (sim cid) s]
          \<and> lastAttemptAt s' = Some (Date (at cid))"
      using h by (simp add: after)
  qed
  have other: "states_get after k = states_get st1 k" if "k \<notin> fst ` set (take n due)" for k
    unfolding after using that by (rule runBatch_other)
  have rest: "states_get after cid = Some s" if "(cid, s) \<in> set (drop n due)" for cid s
  proof -
    have "cid \<notin> fst ` set (take n due)"
      using distinct_take_drop [OF dd that] by simp
    then have "states_get after cid = states_get st1 cid"
      by (rule other)
    then show ?thesis
      using stored that by (auto dest: in_set_dropD)
  qed
  have later: "(cid, s) \<in> set (fst (getCampaignsForRetry now' after))"
    if "now \<le> now'" and "(cid, s) \<in> set (drop n due)" and "\<not> ttlPassed now' s" for now' cid s
  proof -
    have "(cid, s) \<in> set due"
      using that(2) by (rule in_set_dropD)
    then have "eligible now s"
      by (auto simp: due_def due_eq)
    then have e: "eligible now' s"
      using that(1,3) by (rule eligible_later)
    have "map_of after cid = Some s"
      using rest [OF that(2)] by (simp add: states_get_def)
    then have "(cid, s) \<in> set after"
      by (rule map_of_SomeD)
    then show ?thesis
      using e by (simp add: due_eq)
  qed
  have any: "(\<forall>(cid, s) \<in> set batch. \<forall>s0. states_get held cid = Some s0 \<longrightarrow>
           (\<exists>s'. states_get (snd (runBatch zone at sim batch held)) cid = Some s'
              \<and> attempts s' = attempts s0 @ [attemptOf (at cid) (sim cid) s]
              \<and> lastAttemptAt s' = Some (Date (at cid))))
        \<and> (\<forall>k. k \<notin> fst ` set batch \<longrightarrow>
             states_get (snd (runBatch zone at sim batch held)) k = states_get held k)"
    if "distinct (map fst batch)"
    using runBatch_appends [OF that, of held zone at sim] runBatch_other [of _ batch zone at sim held]
    by simp
  have count: "length (take n due) = 2 \<and> length (drop n due) = 3"
    if "maxConcurrentRetries c = 2" and "length due = 5"
    using that by (simp add: n_def)
  show "map result_campaignId (fst (processRetries zone c now at sim st)) = map fst (take n due)
   \<and> (\<forall>(cid, s) \<in> set (take n due).
        \<exists>s'. states_get after cid = Some s'
          \<and> attempts s' = attempts s @ [attemptOf (at cid) (sim cid) s]
          \<and> lastAttemptAt s' = Some (Date (at cid)))
   \<and> (\<forall>(cid, s) \<in> set (drop n due). states_get after cid = Some s)
   \<and> (\<forall>k. k \<notin> fst ` set (take n due) \<longrightarrow>
        states_get after k = states_get (snd (getCampaignsForRetry now st)) k)
   \<and> (\<forall>now'. now \<le> now' \<longrightarrow>
        (\<forall>(cid, s) \<in> set (drop n due). \<not> ttlPassed now' s \<longrightarrow>
           (cid, s) \<in> set (fst (getCampaignsForRetry now' after))))
   \<and> (maxConcurrentRetries c = 2 \<and> length due = 5 \<longrightarrow>
        length (take n due) = 2 \<and> length (drop n due) = 3)
   \<and> (distinct (map fst batch) \<longrightarrow>
        (\<forall>(cid, s) \<in> set batch. \<forall>s0. states_get held cid = Some s0 \<longrightarrow>
           (\<exists>s'. states_get (snd (runBatch zone at sim batch held)) cid = Some s'
              \<and> attempts s' = attempts s0 @ [attemptOf (at cid) (sim cid) s]
              \<and> lastAttemptAt s' = Some (Date (at cid))))
        \<and> (\<forall>k. k \<notin> fst ` set batch \<longrightarrow>
             states_get (snd (runBatch zone at sim batch held)) k = states_get held k))"
    using ids app rest other [unfolded st1_def] later count any
    by (intro conjI allI impI ballI) (auto simp: split_beta)
qed

text \<open>
  An instance: five campaigns due, maxConcurrentRetries = 2. The tick dispatches c1 and
  c2 and records one attempt for each; c3, c4 and c5 have no attempt and are due at a
  scan one minute later. And a retry of c1 that goes on when the store holds an attempt
  for c1 already adds its own, with the number it took from the state of its scan.
\<close>

theorem processRetries_batch_witness:
  "map result_campaignId
     (fst (processRetries (fixedZone 0) (engineConfig 2 60000) 1000 (\<lambda>cid. 1100)
             frequencyCapped fiveDue)) = [''c1'', ''c2'']
   \<and> map (\<lambda>cid. map_option (\<lambda>s. map attemptNumber (attempts s))
        (states_get (snd (processRetries (fixedZone 0) (engineConfig 2 60000) 1000
            (\<lambda>cid. 1100) frequencyCapped fiveDue)) cid))
        [''c1'', ''c2'', ''c3'', ''c4'', ''c5'']
      = [Some [1], Some [1], Some [], Some [], Some []]
   \<and> {(''c3'', dueState ''c3''), (''c4'', dueState ''c4''), (''c5'', dueState ''c5'')}
        \<subseteq> set (fst (getCampaignsForRetry 61000
            (snd (processRetries (fixedZone 0) (engineConfig 2 60000) 1000 (\<lambda>cid. 1100)
                    frequencyCapped fiveDue))))
   \<and> map_option (\<lambda>s. map attemptNumber (attempts s))
        (states_get (snd (runBatch (fixedZone 0) (\<lambda>cid. 1100) frequencyCapped
            [(''c1'', dueState ''c1'')]
            [(''c1'', (dueState ''c1'')\<lparr>attempts := [firstAttempt]\<rparr>)])) ''c1'')
      = Some [1, 1]"
proof -
  define after where "after = snd (processRetries (fixedZone 0) (engineConfig 2 60000) 1000
      (\<lambda>cid. 1100) frequencyCapped fiveDue)"
  define again where "again = snd (runBatch (fixedZone 0) (\<lambda>cid. 1100) frequencyCapped
            [(''c1'', dueState ''c1'')]
            [(''c1'', (dueState ''c1'')\<lparr>attempts := [firstAttempt]\<rparr>)])"
  have due: "getCampaignsForRetry 1000 fiveDue = (fiveDue, fiveDue)"
    by (simp add: getCampaignsForRetry_def forEachEntry_eq eligible_def newlyExpired_def
        fiveDue_def dueState_def stateWith_def ttlPassed_def nextAttemptDue_def
        isRetryTtlExpired_def)
  have live: "\<not> ttlPassed 61000 (dueState cid)" for cid
    by (simp add: ttlPassed_def dueState_def stateWith_def isRetryTtlExpired_def)
  have keys: "distinct (map fst fiveDue)"
    by (simp add: fiveDue_def)
  have n: "nat (min (int (length fiveDue)) (maxConcurrentRetries (engineConfig 2 60000))) = 2"
    by (simp add: fiveDue_def engineConfig_def)
  have tk: "take 2 fiveDue = [(''c1'', dueState ''c1''), (''c2'', dueState ''c2'')]"
    and dr: "drop 2 fiveDue = [(''c3'', dueState ''c3''), (''c4'', dueState ''c4''),
        (''c5'', dueState ''c5'')]"
    by (simp_all add: fiveDue_def)
  have att: "attemptNumber (attemptOf 1100 (frequencyCapped cid) (dueState cid)) = 1" for cid
    by (simp add: dueState_def stateWith_def attemptOf_def)
  have none: "attempts (dueState cid) = []" for cid
    by (simp add: dueState_def stateWith_def)
  have m: "0 \<le> maxConcurrentRetries (engineConfig 2 60000)"
    by (simp add: engineConfig_def)
  have "0 \<le> maxConcurrentRetries (engineConfig 2 60000) \<and> distinct (map fst fiveDue)"
    using m keys by (rule conjI)
  note inst = processRetries_batch [where zone = "fixedZone 0" and c = "engineConfig 2 60000"
      and now = 1000 and at = "\<lambda>cid. 1100" and sim = frequencyCapped and st = fiveDue
      and batch = "[(''c1'', dueState ''c1'')]"
      and held = "[(''c1'', (dueState ''c1'')\<lparr>attempts := [firstAttempt]\<rparr>)]",
      unfolded due fst_conv snd_conv n tk dr, folded after_def again_def, THEN mp, OF this]
  have ids: "map result_campaignId
     (fst (processRetries (fixedZone 0) (engineConfig 2 60000) 1000 (\<lambda>cid. 1100)
             frequencyCapped fiveDue)) = [''c1'', ''c2'']"
    using inst by simp
  have a1: "\<exists>s'. states_get after ''c1'' = Some s' \<and> map attemptNumber (attempts s') = [1]"
    and a2: "\<exists>s'. states_get after ''c2'' = Some s' \<and> map attemptNumber (attempts s') = [1]"
    using inst att none by auto
  have rest: "states_get after ''c3'' = Some (dueState ''c3'')"
    "states_get after ''c4'' = Some (dueState ''c4'')"
    "states_get after ''c5'' = Some (dueState ''c5'')"
    using inst by simp_all
  have got: "map (\<lambda>cid. map_option (\<lambda>s. map attemptNumber (attempts s)) (states_get after cid))
        [''c1'', ''c2'', ''c3'', ''c4'', ''c5'']
      = [Some [1], Some [1], Some [], Some [], Some []]"
    using a1 a2 rest none by auto
  have still: "{(''c3'', dueState ''c3''), (''c4'', dueState ''c4''), (''c5'', dueState ''c5'')}
        \<subseteq> set (fst (getCampaignsForRetry 61000 after))"
    using inst live by auto
  have "\<exists>s'. states_get again ''c1'' = Some s'
      \<and> attempts s' = [firstAttempt, attemptOf 1100 (frequencyCapped ''c1'') (dueState ''c1'')]
      \<and> lastAttemptAt s' = Some (Date 1100)"
    using inst by (simp add: states_get_def)
  then have twice: "map_option (\<lambda>s. map attemptNumber (attempts s)) (states_get again ''c1'')
      = Some [1, 1]"
    using att by (auto simp: firstAttempt_def)
  show ?thesis
    using ids got still twice by (simp add: after_def again_def del: runBatch.simps)
qed

subsection \<open>The timer and overlapping ticks\<close>

lemma batchOf_nonempty:
  "due \<noteq> [] \<Longrightarrow> 1 \<le> maxConcurrentRetries c \<Longrightarrow> batchOf c due \<noteq> []"
  by (cases due) (simp_all add: batchOf_nonneg)

lemma batchOf_empty: "batchOf c [] = []"
  by (simp add: batchOf_def slice0_def)

lemma intervalCallback_waits:
  assumes "batchOf (config (engine r)) (fst (getCampaignsForRetry now (states r))) \<noteq> []"
  shows "intervalCallback now r =
     r\<lparr>clock := now, states := snd (getCampaignsForRetry now (states r)),
       ticksWaiting := ticksWaiting r @
         [(now + SIMULATED_DELAY_MS,
           batchOf (config (engine r)) (fst (getCampaignsForRetry now (states r))))]\<rparr>"
proof -
  have "fst (getCampaignsForRetry now (states r)) \<noteq> []"
    using assms batchOf_empty by metis
  then show ?thesis
    using assms by (simp add: intervalCallback_def split_beta Let_def)
qed

text \<open>
  A call of processRetries with no other call in progress, and with the timer not due
  before its timeouts: its turns of the event loop leave the store that
  \<open>processRetries\<close> gives for the tick.
\<close>

lemma tick_alone:
  fixes zone :: timeZone and sim :: "int \<Rightarrow> string \<Rightarrow> execution" and r :: runtime
    and fireAt :: int
  defines "after \<equiv> snd (processRetries zone (config (engine r)) fireAt
      (\<lambda>cid. fireAt + SIMULATED_DELAY_MS) (sim (fireAt + SIMULATED_DELAY_MS)) (states r))"
  assumes "retryInterval (engine r) = Some fireAt" and "ticksWaiting r = []"
    and "SIMULATED_DELAY_MS \<le> timerDelay (retryCheckIntervalMs (config (engine r)))"
  shows "\<exists>r1. step zone sim r IntervalFires = Some r1
    \<and> (if ticksWaiting r1 = [] then states r1 = after
        else \<exists>r2. step zone sim r1 TimeoutsFire = Some r2 \<and> states r2 = after
               \<and> ticksWaiting r2 = [])"
proof (cases "batchOf (config (engine r)) (fst (getCampaignsForRetry fireAt (states r))) = []")
  case True
  then show ?thesis
    using assms(2,3)
    by (simp add: intervalCallback_def split_beta Let_def after_def processRetries_store)
next
  case False
  then show ?thesis
    using assms(2,3,4)
    by (simp add: intervalCallback_waits after_def processRetries_store batchResumes_def)
qed

lemma interval_fires:
  assumes "retryInterval (engine r) = Some fireAt"
    and "list_all (\<lambda>(wakeAt, batch). fireAt \<le> wakeAt) (ticksWaiting r)"
    and "batchOf (config (engine r)) (fst (getCampaignsForRetry fireAt (states r))) \<noteq> []"
  shows "step zone sim r IntervalFires =
     Some (r\<lparr>clock := fireAt,
             engine := (engine r)\<lparr>retryInterval :=
               Some (fireAt + timerDelay (retryCheckIntervalMs (config (engine r))))\<rparr>,
             states := snd (getCampaignsForRetry fireAt (states r)),
             ticksWaiting := ticksWaiting r @
               [(fireAt + SIMULATED_DELAY_MS,
                 batchOf (config (engine r)) (fst (getCampaignsForRetry fireAt (states r))))]\<rparr>)"
  using assms by (simp add: intervalCallback_waits)

lemma due_nonempty:
  "(cid, s) \<in> set st \<Longrightarrow> eligible now s \<Longrightarrow> fst (getCampaignsForRetry now st) \<noteq> []"
  by (auto simp: due_eq filter_empty_conv)

lemma two_ticks_waiting:
  assumes i: "1 \<le> retryCheckIntervalMs c" "retryCheckIntervalMs c < SIMULATED_DELAY_MS"
    and m: "1 \<le> maxConcurrentRetries c"
    and mem: "(cid, s) \<in> set st"
    and e1: "eligible (t0 + retryCheckIntervalMs c) s"
    and live: "\<not> ttlPassed (t0 + 2 * retryCheckIntervalMs c) s"
  shows "\<exists>r'. run zone sim (initially c t0 st) [Start, IntervalFires, IntervalFires] = Some r'
      \<and> clock r' = t0 + 2 * retryCheckIntervalMs c
      \<and> map fst (ticksWaiting r') =
          [t0 + retryCheckIntervalMs c + SIMULATED_DELAY_MS,
           t0 + 2 * retryCheckIntervalMs c + SIMULATED_DELAY_MS]
      \<and> list_all (\<lambda>(wakeAt, batch). clock r' < wakeAt \<and> batch \<noteq> []) (ticksWaiting r')"
proof -
  define ms where "ms = retryCheckIntervalMs c"
  have delay: "timerDelay ms = ms"
    using i by (simp add: timerDelay_def ms_def SIMULATED_DELAY_MS_def)
  define r1 where "r1 = \<lparr>clock = t0,
      engine = \<lparr>config = c, isRunning = True, retryInterval = Some (t0 + ms)\<rparr>,
      states = st, ticksWaiting = []\<rparr>"
  define b1 where "b1 = batchOf c (fst (getCampaignsForRetry (t0 + ms) st))"
  define st1 where "st1 = snd (getCampaignsForRetry (t0 + ms) st)"
  define r2 where "r2 = \<lparr>clock = t0 + ms,
      engine = \<lparr>config = c, isRunning = True, retryInterval = Some (t0 + ms + ms)\<rparr>,
      states = st1, ticksWaiting = [(t0 + ms + SIMULATED_DELAY_MS, b1)]\<rparr>"
  define b2 where "b2 = batchOf c (fst (getCampaignsForRetry (t0 + ms + ms) st1))"
  define r3 where "r3 = \<lparr>clock = t0 + ms + ms,
      engine = \<lparr>config = c, isRunning = True, retryInterval = Some (t0 + ms + ms + ms)\<rparr>,
      states = snd (getCampaignsForRetry (t0 + ms + ms) st1),
      ticksWaiting = [(t0 + ms + SIMULATED_DELAY_MS, b1),
                      (t0 + ms + ms + SIMULATED_DELAY_MS, b2)]\<rparr>"
  have n1: "b1 \<noteq> []"
    unfolding b1_def using due_nonempty [OF mem e1] m by (simp add: batchOf_nonempty ms_def)
  have mem1: "(cid, s) \<in> set st1"
    unfolding st1_def using mem e1 by (simp add: scan_keeps_eligible ms_def)
  have same: "t0 + 2 * retryCheckIntervalMs c = t0 + ms + ms"
    by (simp add: ms_def)
  have e2: "eligible (t0 + ms + ms) s"
  proof (rule eligible_later [OF e1])
    show "t0 + retryCheckIntervalMs c \<le> t0 + ms + ms"
      using i by (simp add: ms_def)
    show "\<not> ttlPassed (t0 + ms + ms) s"
      using live unfolding same .
  qed
  have n2: "b2 \<noteq> []"
    unfolding b2_def using due_nonempty [OF mem1 e2] m by (simp add: batchOf_nonempty)
  have s1: "step zone sim (initially c t0 st) Start = Some r1"
    by (simp add: initially_def newRetryEngine_def start_def delay r1_def ms_def [symmetric])
  have s2: "step zone sim r1 IntervalFires = Some r2"
    using n1
    by (subst interval_fires [where fireAt = "t0 + ms"])
      (simp_all add: r1_def r2_def b1_def st1_def ms_def [symmetric] delay)
  have s3: "step zone sim r2 IntervalFires = Some r3"
    using n2 i
    by (subst interval_fires [where fireAt = "t0 + ms + ms"])
      (simp_all add: r2_def r3_def b2_def ms_def [symmetric] delay)
  have f1: "run zone sim (initially c t0 st) [Start, IntervalFires, IntervalFires] = Some r3"
    by (simp add: s1 s2 s3 del: step.simps)
  have f2: "clock r3 = t0 + 2 * retryCheckIntervalMs c"
    by (simp add: r3_def ms_def)
  have f3: "map fst (ticksWaiting r3) =
          [t0 + retryCheckIntervalMs c + SIMULATED_DELAY_MS,
           t0 + 2 * retryCheckIntervalMs c + SIMULATED_DELAY_MS]"
    by (simp add: r3_def ms_def)
  have f4: "list_all (\<lambda>(wakeAt, batch). clock r3 < wakeAt \<and> batch \<noteq> []) (ticksWaiting r3)"
    using n1 n2 i by (simp add: r3_def ms_def SIMULATED_DELAY_MS_def)
  show ?thesis
    by (rule exI [of _ r3]) (intro conjI f1 f2 f3 f4)
qed

text \<open>
  The claim C6 as the specification states it: when a tick is still executing as the
  timer fires again, the new tick is skipped, so at most one call of processRetries of a
  running engine is in progress at any time. The callback of the timer calls
  processRetries and reads nothing that tells whether an earlier call has ended. An
  engine with retryCheckIntervalMs = 50 and one campaign due, started at time 1000: at
  time 1100 the timer has fired twice, the call of time 1050 waits for its timeouts of
  time 1150, the call of time 1100 for those of time 1200, both with campaign c1 in
  their batch. When the engine is stopped then and both calls go on, c1 has two
  attempts, both numbered 1.
\<close>

theorem ticks_overlap:
  "map_option (\<lambda>r. (clock r, map (\<lambda>(wakeAt, batch). (wakeAt, map fst batch)) (ticksWaiting r)))
     (run (fixedZone 0) (\<lambda>t. frequencyCapped)
        (initially (engineConfig 10 50) 1000 [(''c1'', dueState ''c1'')])
        [Start, IntervalFires, IntervalFires])
     = Some (1100, [(1150, [''c1'']), (1200, [''c1''])])
   \<and> map_option (\<lambda>r. map (\<lambda>(cid, s). (cid, map attemptNumber (attempts s))) (states r))
     (run (fixedZone 0) (\<lambda>t. frequencyCapped)
        (initially (engineConfig 10 50) 1000 [(''c1'', dueState ''c1'')])
        [Start, IntervalFires, IntervalFires, Stop, TimeoutsFire, TimeoutsFire])
     = Some [(''c1'', [1, 1])]"
proof -
  have due: "getCampaignsForRetry now [(''c1'', dueState ''c1'')]
      = ([(''c1'', dueState ''c1'')], [(''c1'', dueState ''c1'')])"
    if "500 \<le> now" and "now \<le> 1000000000" for now
    using that
    by (simp add: getCampaignsForRetry_def forEachEntry_eq eligible_def newlyExpired_def
        dueState_def stateWith_def ttlPassed_def nextAttemptDue_def isRetryTtlExpired_def)
  have batch: "batchOf (engineConfig 10 50) [e] = [e]" for e
    by (simp add: batchOf_def slice0_def engineConfig_def)
  have dec: "processRetryAttempt (fixedZone 0) now k ''131049'' (dueState k)
     = Inr \<lparr>decision_nextAttemptAt = Some (Date (now + 12 * HOUR_MS)), shouldRetry = True,
            reason = RetryScheduled (Some (Date (now + 12 * HOUR_MS)))\<rparr>"
    if "0 \<le> now" and "now \<le> 2000" for k now
    using that
    by (simp add: processRetryAttempt_def dueState_def stateWith_def isRetryTtlExpired_def
        getRetryPolicy_def DEFAULT_RETRY_POLICIES_def calculateNextRetryAttempt_def Let_def
        addHours_fixedZone validTime_def MAX_TIME_def HOUR_MS_def
        objectPrototypeMembers_def TimeClip_def)
  have ms: "retryCheckIntervalMs (engineConfig 10 50) = 50"
    by (simp add: engineConfig_def)
  define r1 where "r1 = \<lparr>clock = 1000,
      engine = \<lparr>config = engineConfig 10 50, isRunning = True, retryInterval = Some 1050\<rparr>,
      states = [(''c1'', dueState ''c1'')], ticksWaiting = []\<rparr>"
  define r2 where "r2 = \<lparr>clock = 1050,
      engine = \<lparr>config = engineConfig 10 50, isRunning = True, retryInterval = Some 1100\<rparr>,
      states = [(''c1'', dueState ''c1'')],
      ticksWaiting = [(1150, [(''c1'', dueState ''c1'')])]\<rparr>"
  define r3 where "r3 = \<lparr>clock = 1100,
      engine = \<lparr>config = engineConfig 10 50, isRunning = True, retryInterval = Some 1150\<rparr>,
      states = [(''c1'', dueState ''c1'')],
      ticksWaiting = [(1150, [(''c1'', dueState ''c1'')]), (1200, [(''c1'', dueState ''c1'')])]\<rparr>"
  have s1: "step (fixedZone 0) (\<lambda>t. frequencyCapped)
      (initially (engineConfig 10 50) 1000 [(''c1'', dueState ''c1'')]) Start = Some r1"
    by (simp add: initially_def newRetryEngine_def start_def timerDelay_def ms r1_def)
  have s2: "step (fixedZone 0) (\<lambda>t. frequencyCapped) r1 IntervalFires = Some r2"
    by (simp add: r1_def r2_def timerDelay_def ms intervalCallback_def due batch
        SIMULATED_DELAY_MS_def Let_def)
  have s3: "step (fixedZone 0) (\<lambda>t. frequencyCapped) r2 IntervalFires = Some r3"
    by (simp add: r2_def r3_def timerDelay_def ms intervalCallback_def due batch
        SIMULATED_DELAY_MS_def Let_def)
  define r4 where "r4 = r3\<lparr>engine := \<lparr>config = engineConfig 10 50, isRunning = False,
      retryInterval = None\<rparr>\<rparr>"
  have s4: "step (fixedZone 0) (\<lambda>t. frequencyCapped) r3 Stop = Some r4"
    by (simp add: r3_def r4_def stop_def)
  have retry: "map (\<lambda>(cid, s). (cid, map attemptNumber (attempts s)))
      (snd (runBatch (fixedZone 0) (\<lambda>cid. now) frequencyCapped [(''c1'', dueState ''c1'')]
        [(''c1'', s)])) = [(''c1'', map attemptNumber (attempts s) @ [1])]"
    if "0 \<le> now" and "now \<le> 2000" for now s
    by (simp add: split_beta Let_def executeCampaignRetry_def dec [OF that]
        frequencyCapped_def updateRetryAttempt_def setNextAttemptAt_def getRetryState_def
        states_get_def attemptOf_def updateRetryState_def)
      (simp add: dueState_def stateWith_def)
  have keys: "map fst (snd (runBatch (fixedZone 0) at sim b [(''c1'', s)])) = [''c1'']"
    for at sim b s
    by (simp add: keys_runBatch)
  have one: "\<exists>s. st = [(''c1'', s)]" if "map fst st = [''c1'']" for st :: store
    using that by (cases st) auto
  obtain s5 where s5: "snd (runBatch (fixedZone 0) (\<lambda>cid. 1150) frequencyCapped
      [(''c1'', dueState ''c1'')] [(''c1'', dueState ''c1'')]) = [(''c1'', s5)]"
    using one [OF keys] by blast
  have a5: "map attemptNumber (attempts s5) = [1]"
    using retry [of 1150 "dueState ''c1''", unfolded s5]
    by (simp add: dueState_def stateWith_def)
  have final: "map (\<lambda>(cid, s). (cid, map attemptNumber (attempts s)))
      (snd (runBatch (fixedZone 0) (\<lambda>cid. 1200) frequencyCapped
      [(''c1'', dueState ''c1'')] [(''c1'', s5)])) = [(''c1'', [1, 1])]"
    using retry [of 1200 s5] by (simp add: a5)
  have s56: "map_option (\<lambda>r. map (\<lambda>(cid, s). (cid, map attemptNumber (attempts s))) (states r))
      (run (fixedZone 0) (\<lambda>t. frequencyCapped) r4 [TimeoutsFire, TimeoutsFire])
      = Some [(''c1'', [1, 1])]"
    using final by (simp add: r4_def r3_def batchResumes_def s5 del: runBatch.simps)
  have first: "run (fixedZone 0) (\<lambda>t. frequencyCapped)
        (initially (engineConfig 10 50) 1000 [(''c1'', dueState ''c1'')])
        [Start, IntervalFires, IntervalFires] = Some r3"
    by (simp add: s1 s2 s3 del: step.simps)
  have second: "run (fixedZone 0) (\<lambda>t. frequencyCapped)
        (initially (engineConfig 10 50) 1000 [(''c1'', dueState ''c1'')])
        [Start, IntervalFires, IntervalFires, Stop, TimeoutsFire, TimeoutsFire]
      = run (fixedZone 0) (\<lambda>t. frequencyCapped) r4 [TimeoutsFire, TimeoutsFire]"
    by (simp add: s1 s2 s3 s4 del: step.simps)
  show ?thesis
    unfolding first second s56 by (simp add: r3_def)
qed


text \<open>
  C6, amended. Whenever the timer of the engine fires and the batch of the scan is not
  empty, the callback starts a call of processRetries that dispatches this batch and
  waits for it, whatever calls are waiting already: the new call is not skipped, and
  the calls in progress are those of before and the new one. So with
  retryCheckIntervalMs from 1 to 99 milliseconds, below the 100 milliseconds of a
  simulated execution, with maxConcurrentRetries at least 1, and with a campaign in
  the store that is due at the first fire of the timer and whose TTL has not passed at
  the second, two calls of processRetries are in progress after the second fire.
\<close>

theorem timer_always_starts_tick:
  "(retryInterval (engine r) = Some fireAt
      \<and> list_all (\<lambda>(wakeAt, batch). fireAt \<le> wakeAt) (ticksWaiting r)
      \<and> batchOf (config (engine r)) (fst (getCampaignsForRetry fireAt (states r))) \<noteq> [] \<longrightarrow>
    (\<exists>r'. step zone sim r IntervalFires = Some r'
       \<and> states r' = snd (getCampaignsForRetry fireAt (states r))
       \<and> ticksWaiting r' = ticksWaiting r @
            [(fireAt + SIMULATED_DELAY_MS,
              batchOf (config (engine r)) (fst (getCampaignsForRetry fireAt (states r))))]))
   \<and> (1 \<le> retryCheckIntervalMs c \<and> retryCheckIntervalMs c < SIMULATED_DELAY_MS
        \<and> 1 \<le> maxConcurrentRetries c \<and> (cid, s) \<in> set st
        \<and> eligible (t0 + retryCheckIntervalMs c) s
        \<and> \<not> ttlPassed (t0 + 2 * retryCheckIntervalMs c) s \<longrightarrow>
      (\<exists>r'. run zone sim (initially c t0 st) [Start, IntervalFires, IntervalFires] = Some r'
         \<and> clock r' = t0 + 2 * retryCheckIntervalMs c
         \<and> map fst (ticksWaiting r') =
             [t0 + retryCheckIntervalMs c + SIMULATED_DELAY_MS,
              t0 + 2 * retryCheckIntervalMs c + SIMULATED_DELAY_MS]
         \<and> list_all (\<lambda>(wakeAt, batch). clock r' < wakeAt \<and> batch \<noteq> []) (ticksWaiting r')))"
proof (intro conjI impI)
  assume "retryInterval (engine r) = Some fireAt
      \<and> list_all (\<lambda>(wakeAt, batch). fireAt \<le> wakeAt) (ticksWaiting r)
      \<and> batchOf (config (engine r)) (fst (getCampaignsForRetry fireAt (states r))) \<noteq> []"
  then show "\<exists>r'. step zone sim r IntervalFires = Some r'
       \<and> states r' = snd (getCampaignsForRetry fireAt (states r))
       \<and> ticksWaiting r' = ticksWaiting r @
            [(fireAt + SIMULATED_DELAY_MS,
              batchOf (config (engine r)) (fst (getCampaignsForRetry fireAt (states r))))]"
    using interval_fires [of r fireAt zone sim] by simp
next
  assume "1 \<le> retryCheckIntervalMs c \<and> retryCheckIntervalMs c < SIMULATED_DELAY_MS
        \<and> 1 \<le> maxConcurrentRetries c \<and> (cid, s) \<in> set st
        \<and> eligible (t0 + retryCheckIntervalMs c) s
        \<and> \<not> ttlPassed (t0 + 2 * retryCheckIntervalMs c) s"
  then show "\<exists>r'. run zone sim (initially c t0 st) [Start, IntervalFires, IntervalFires] = Some r'
         \<and> clock r' = t0 + 2 * retryCheckIntervalMs c
         \<and> map fst (ticksWaiting r') =
             [t0 + retryCheckIntervalMs c + SIMULATED_DELAY_MS,
              t0 + 2 * retryCheckIntervalMs c + SIMULATED_DELAY_MS]
         \<and> list_all (\<lambda>(wakeAt, batch). clock r' < wakeAt \<and> batch \<noteq> []) (ticksWaiting r')"
    using two_ticks_waiting [of c cid s st t0 zone sim] by simp
qed

text \<open>
  An instance. The timer fires at time 1100 while the call of time 1050 waits: a second
  call waits beside it. And the run from the start of the engine has two calls waiting
  at time 1100.
\<close>

theorem timer_always_starts_tick_witness:
  "(\<exists>r'. step (fixedZone 0) (\<lambda>t. frequencyCapped) oneTickWaiting IntervalFires = Some r'
      \<and> map (\<lambda>(wakeAt, batch). (wakeAt, map fst batch)) (ticksWaiting r')
          = [(1150, [''c1'']), (1200, [''c1''])])
   \<and> (\<exists>r'. run (fixedZone 0) (\<lambda>t. frequencyCapped)
          (initially (engineConfig 10 50) 1000 [(''c1'', dueState ''c1'')])
          [Start, IntervalFires, IntervalFires] = Some r'
      \<and> clock r' = 1100 \<and> map fst (ticksWaiting r') = [1150, 1200]
      \<and> list_all (\<lambda>(wakeAt, batch). clock r' < wakeAt \<and> batch \<noteq> []) (ticksWaiting r'))"
proof -
  have due: "getCampaignsForRetry now [(''c1'', dueState ''c1'')]
      = ([(''c1'', dueState ''c1'')], [(''c1'', dueState ''c1'')])"
    if "500 \<le> now" and "now \<le> 1000000000" for now
    using that
    by (simp add: getCampaignsForRetry_def forEachEntry_eq eligible_def newlyExpired_def
        dueState_def stateWith_def ttlPassed_def nextAttemptDue_def isRetryTtlExpired_def)
  have batch: "batchOf (engineConfig 10 50) [e] = [e]" for e
    by (simp add: batchOf_def slice0_def engineConfig_def)
  have ms: "retryCheckIntervalMs (engineConfig 10 50) = 50"
    and mx: "maxConcurrentRetries (engineConfig 10 50) = 10"
    by (simp_all add: engineConfig_def)
  have el: "eligible 1050 (dueState ''c1'')"
    by (simp add: eligible_def dueState_def stateWith_def ttlPassed_def nextAttemptDue_def
        isRetryTtlExpired_def)
  have live: "\<not> ttlPassed 1100 (dueState ''c1'')"
    by (simp add: dueState_def stateWith_def ttlPassed_def isRetryTtlExpired_def)
  note inst = timer_always_starts_tick [where r = oneTickWaiting and fireAt = 1100
      and zone = "fixedZone 0" and sim = "\<lambda>t. frequencyCapped" and c = "engineConfig 10 50"
      and ?t0.0 = 1000 and st = "[(''c1'', dueState ''c1'')]" and cid = "''c1''"
      and s = "dueState ''c1''"]
  have a: "\<exists>r'. step (fixedZone 0) (\<lambda>t. frequencyCapped) oneTickWaiting IntervalFires = Some r'
      \<and> map (\<lambda>(wakeAt, batch). (wakeAt, map fst batch)) (ticksWaiting r')
          = [(1150, [''c1'']), (1200, [''c1''])]"
  proof -
    have "\<exists>r'. step (fixedZone 0) (\<lambda>t. frequencyCapped) oneTickWaiting IntervalFires = Some r'
       \<and> states r' = [(''c1'', dueState ''c1'')]
       \<and> ticksWaiting r' = [(1150, [(''c1'', dueState ''c1'')]),
            (1200, [(''c1'', dueState ''c1'')])]"
      using inst [THEN conjunct1]
      by (simp add: oneTickWaiting_def due batch SIMULATED_DELAY_MS_def del: step.simps)
    then show ?thesis
      by (auto simp del: step.simps)
  qed
  have b: "\<exists>r'. run (fixedZone 0) (\<lambda>t. frequencyCapped)
          (initially (engineConfig 10 50) 1000 [(''c1'', dueState ''c1'')])
          [Start, IntervalFires, IntervalFires] = Some r'
      \<and> clock r' = 1100 \<and> map fst (ticksWaiting r') = [1150, 1200]
      \<and> list_all (\<lambda>(wakeAt, batch). clock r' < wakeAt \<and> batch \<noteq> []) (ticksWaiting r')"
    using inst [THEN conjunct2] el live
    by (simp add: ms mx SIMULATED_DELAY_MS_def del: run.simps)
  show ?thesis
    using a b by (rule conjI)
qed

end
